theory Spec2Isabelle
  imports Main
begin

section \<open>Data model\<close>

text \<open>
  Go's \<open>error\<close> values as far as \<open>imagor.go\<close> tells them apart: the sentinels of the
  package it compares with \<open>==\<close>, the two context errors it tests with \<open>errors.Is\<close>,
  an error that wraps another one (which \<open>errors.Is\<close> sees through and \<open>==\<close> does not),
  and any other error. A nil error is \<open>None :: error option\<close>.
\<close>

datatype error =
    ErrNotFound
  | ErrPass
  | ErrSignatureMismatch
  | ErrTimeout
  | ErrUnsupportedFormat
  | ErrMaxResolutionExceeded
  | ErrMaxSizeExceeded
  | ErrInternal
  | ContextCanceled
  | ContextDeadlineExceeded
  | Wrapped string error
  | OtherError string

fun errors_Is :: "error \<Rightarrow> error \<Rightarrow> bool" where
  "errors_Is (Wrapped msg e) target = (Wrapped msg e = target \<or> errors_Is e target)"
| "errors_Is e target = (e = target)"

text \<open>\<open>errors.Is(err, target)\<close> on a possibly nil error.\<close>

definition is_err :: "error option \<Rightarrow> error \<Rightarrow> bool" where
  "is_err err target = (case err of None \<Rightarrow> False | Some e \<Rightarrow> errors_Is e target)"

text \<open>
  A context as one call sees it: \<open>ctx.Err()\<close> (nil while the context is live), the keys
  \<open>k\<close> for which \<open>ctx.Value(suppressKey{k})\<close> is \<open>true\<close>, and the tightest timeout
  derived so far. Timers are real time and do not run in the model: a deadline that
  fires shows as an error returned by whoever observed it.
\<close>

record ctxt =
  ctx_err :: "error option"
  ctx_held :: "string list"
  ctx_timeout :: "nat option"

definition WithTimeout :: "ctxt \<Rightarrow> nat \<Rightarrow> ctxt" where
  "WithTimeout ctx d =
     ctx\<lparr>ctx_timeout := Some (case ctx_timeout ctx of None \<Rightarrow> d | Some d' \<Rightarrow> min d d')\<rparr>"

definition WithValue :: "ctxt \<Rightarrow> string \<Rightarrow> ctxt" where
  "WithValue ctx key = ctx\<lparr>ctx_held := key # ctx_held ctx\<rparr>"

definition holds :: "ctxt \<Rightarrow> string \<Rightarrow> bool" where
  "holds ctx key = (key \<in> set (ctx_held ctx))"

record meta =
  meta_format :: string
  meta_content_type :: string
  meta_width :: int
  meta_height :: int
  meta_orientation :: int

text \<open>
  Modelled from the spec: \<open>Blob\<close> is declared outside \<open>imagor.go\<close>. The spec (section 3)
  gives it image bytes, a content type, an optional \<open>Meta\<close>, a reader factory that can
  fail, and an emptiness predicate decidable without reading.
  A \<open>*Blob\<close> is a \<open>blob option\<close>, \<open>None\<close> for the nil pointer.
\<close>

record blob =
  blob_bytes :: string
  blob_content_type :: string
  blob_meta :: "meta option"
  blob_opens :: bool

type_synonym result = "blob option \<times> error option"

text \<open>
  Modelled from the spec: \<open>isBlobEmpty\<close> is defined outside \<open>imagor.go\<close>; a nil blob
  and a blob without bytes are empty.
\<close>

definition isBlobEmpty :: "blob option \<Rightarrow> bool" where
  "isBlobEmpty b = (case b of None \<Rightarrow> True | Some x \<Rightarrow> blob_bytes x = [])"

text \<open>Modelled from the spec: \<open>NewEmptyBlob\<close> is defined outside \<open>imagor.go\<close>.\<close>

definition NewEmptyBlob :: blob where
  "NewEmptyBlob = \<lparr>blob_bytes = [], blob_content_type = [], blob_meta = None, blob_opens = False\<rparr>"

record stat =
  ModifiedTime :: int

record request =
  req_method :: string
  req_path :: string
  req_accept :: string
  req_ctx :: ctxt

definition WithContext :: "request \<Rightarrow> ctxt \<Rightarrow> request" where
  "WithContext r ctx = r\<lparr>req_ctx := ctx\<rparr>"

text \<open>
  The \<open>Storage\<close> and \<open>Loader\<close> interfaces. An implementation is an external
  collaborator, so each method is the function from its arguments to what it returns.
  \<open>Put\<close> and \<open>Delete\<close> only act on the outside world; they show in the trace of events.
\<close>

record storage =
  storage_name :: string
  storage_Get :: "request \<Rightarrow> string \<Rightarrow> result"
  storage_Stat :: "ctxt \<Rightarrow> string \<Rightarrow> stat option \<times> error option"
  storage_Meta :: "ctxt \<Rightarrow> string \<Rightarrow> meta option \<times> error option"

type_synonym loader = "request \<Rightarrow> string \<Rightarrow> result"

text \<open>
  \<open>imagorpath.Params\<close> and \<open>imagorpath.Filter\<close> belong to another package; these are the
  fields \<open>imagor.go\<close> reads or writes.
\<close>

record pfilter =
  filter_Name :: string
  filter_Args :: string

record params =
  p_Params :: bool
  p_Path :: string
  p_Image :: string
  p_Unsafe :: bool
  p_Hash :: string
  p_Meta :: bool
  p_Filters :: "pfilter list"

text \<open>
  \<open>Processor.Process(ctx, blob, p, load)\<close>. The \<open>load\<close> callback is the same closure for
  every call of one request, so a processor is the function from the context, the
  current blob and the params to what it returns; the loads a processor makes through
  the callback count as part of the processor.
\<close>

type_synonym processor = "ctxt \<Rightarrow> blob option \<Rightarrow> params \<Rightarrow> result"

text \<open>
  The fields of \<open>Imagor\<close> that decide what a request does. \<open>Signer\<close> and \<open>ResultKey\<close> are
  interfaces with one method and may be nil; the semaphore exists when
  \<open>ProcessConcurrency\<close> is positive.
\<close>

record imagor =
  Unsafe :: bool
  Signer :: "(string \<Rightarrow> string) option"
  BasePathRedirect :: string
  Loaders :: "loader list"
  Storages :: "storage list"
  ResultStorages :: "storage list"
  Processors :: "processor list"
  RequestTimeout :: nat
  LoadTimeout :: nat
  SaveTimeout :: nat
  ProcessTimeout :: nat
  ProcessConcurrency :: int
  AutoWebP :: bool
  AutoAVIF :: bool
  ModifiedTimeCheck :: bool
  DisableErrorBody :: bool
  DisableParamsEndpoint :: bool
  BaseParams :: string
  ResultKey :: "(params \<Rightarrow> string) option"

text \<open>The \<open>Error\<close> value \<open>WrapError\<close> returns: a message and an HTTP status code.\<close>

record herror =
  Message :: string
  Code :: nat

text \<open>
  What \<open>imagor.go\<close> calls and does not define. \<open>checkBlob\<close> and \<open>WrapError\<close> are
  helpers of the package kept in other files, \<open>Parse\<close>, \<open>Apply\<close> and \<open>GeneratePath\<close>
  belong to \<open>imagorpath\<close>; they are parameters (for \<open>WrapError\<close> the section on the
  error surface gives the function the spec describes). The last three fields are the surroundings of one call:
  \<^item> \<open>inflight key\<close>: the calls other goroutines lead for \<open>key\<close> in the singleflight
    group, as the results this caller gets from them on its successive \<open>DoChan\<close>
    attempts (empty when no call is in flight);
  \<^item> \<open>select_done\<close>: whether the \<open>select\<close> of \<open>suppress\<close> takes \<open>ctx.Done()\<close> when the
    context is done (Go chooses among the ready cases);
  \<^item> \<open>acquire ctx\<close>: what \<open>sema.Acquire(ctx, 1)\<close> returns.
\<close>

record env =
  checkBlob :: "result \<Rightarrow> result"
  WrapError :: "error \<Rightarrow> herror"
  Parse :: "string \<Rightarrow> params"
  Apply :: "params \<Rightarrow> string \<Rightarrow> params"
  GeneratePath :: "params \<Rightarrow> string"
  inflight :: "string \<Rightarrow> result list"
  select_done :: bool
  acquire :: "ctxt \<Rightarrow> error option"

text \<open>
  What a call does to the outside world, in order: \<open>Put\<close> and \<open>Delete\<close> on a storage
  (by its name), and the operations on the singleflight group \<open>app.g\<close>.
\<close>

datatype event =
    Put string string "blob option"
  | Delete string string
  | DoChan string
  | Forget string

section \<open>The load pipeline\<close>

text \<open>
  The loop over the storages in bytes mode (lines 379 to 390). \<open>Inl\<close> is the \<open>return\<close>
  inside the loop, \<open>Inr\<close> the values of \<open>blob\<close> and \<open>err\<close> when the loop runs out.
\<close>

fun load_storages ::
  "env \<Rightarrow> request \<Rightarrow> storage list \<Rightarrow> string \<Rightarrow> blob option \<Rightarrow> error option
    \<Rightarrow> (blob option \<times> storage option \<times> error option) + (blob option \<times> error option)" where
  "load_storages ev r [] key blob err = Inr (blob, err)"
| "load_storages ev r (s # ss) key blob err =
     (case checkBlob ev (storage_Get s r key) of (b, e) \<Rightarrow>
        if \<not> isBlobEmpty b then
          (if e = None then Inl (b, Some s, None)
           else load_storages ev r ss key b e)
        else load_storages ev r ss key blob e)"

text \<open>The loop over the loaders (lines 391 to 401); \<open>origin\<close> is still nil there.\<close>

fun load_loaders ::
  "env \<Rightarrow> request \<Rightarrow> loader list \<Rightarrow> string \<Rightarrow> blob option \<Rightarrow> error option
    \<Rightarrow> (blob option \<times> storage option \<times> error option) + (blob option \<times> error option)" where
  "load_loaders ev r [] key blob err = Inr (blob, err)"
| "load_loaders ev r (l # ls) key blob err =
     (case checkBlob ev (l r key) of (b, e) \<Rightarrow>
        if \<not> isBlobEmpty b then
          (if e = None then Inl (b, None, None)
           else load_loaders ev r ls key b e)
        else load_loaders ev r ls key blob e)"

text \<open>
  The loop of meta mode (lines 368 to 377). The \<open>return\<close> inside the loop leaves \<open>err\<close>
  as the previous storage set it.
\<close>

fun load_meta ::
  "ctxt \<Rightarrow> storage list \<Rightarrow> string \<Rightarrow> error option
    \<Rightarrow> (blob option \<times> storage option \<times> error option) + error option" where
  "load_meta ctx [] key err = Inr err"
| "load_meta ctx (s # ss) key err =
     (case storage_Meta s ctx key of (m, e) \<Rightarrow>
        if e = None \<and> m \<noteq> None then Inl (Some (NewEmptyBlob\<lparr>blob_meta := m\<rparr>), Some s, err)
        else load_meta ctx ss key e)"

text \<open>\<open>load\<close> (lines 353 to 414); the debug logging is left out.\<close>

definition load ::
  "imagor \<Rightarrow> env \<Rightarrow> request \<Rightarrow> storage list \<Rightarrow> loader list \<Rightarrow> string \<Rightarrow> bool
    \<Rightarrow> blob option \<times> storage option \<times> error option" where
  "load app ev r0 storages loaders key metaMode =
     (if key = [] then (None, None, Some ErrNotFound)
      else
        let ctx = (if LoadTimeout app > 0 then WithTimeout (req_ctx r0) (LoadTimeout app)
                   else req_ctx r0);
            r = (if LoadTimeout app > 0 then WithContext r0 ctx else r0)
        in if metaMode then
             (case load_meta ctx storages key None of
                Inl ret \<Rightarrow> ret
              | Inr err \<Rightarrow> (None, None, err))
           else
             (case load_storages ev r storages key None None of
                Inl ret \<Rightarrow> ret
              | Inr (blob, err) \<Rightarrow>
                  (case load_loaders ev r loaders key blob err of
                     Inl ret \<Rightarrow> ret
                   | Inr (blob', err') \<Rightarrow>
                       if err' = None \<and> isBlobEmpty blob' then (blob', None, Some ErrNotFound)
                       else (blob', None, err'))))"

text \<open>The request \<open>load\<close> hands to the handlers (lines 360 to 366).\<close>

definition load_request :: "imagor \<Rightarrow> request \<Rightarrow> request" where
  "load_request app r0 =
     (if LoadTimeout app > 0 then WithContext r0 (WithTimeout (req_ctx r0) (LoadTimeout app))
      else r0)"

section \<open>The processor chain\<close>

text \<open>
  The loop over the processors (lines 282 to 308), one processor at a time: the current
  \<open>blob\<close> and \<open>err\<close> go in, their new values come out.
\<close>

fun process_chain ::
  "env \<Rightarrow> ctxt \<Rightarrow> params \<Rightarrow> processor list \<Rightarrow> blob option \<Rightarrow> error option \<Rightarrow> result" where
  "process_chain ev ctx p [] blob err = (blob, err)"
| "process_chain ev ctx p (processor # rest) blob err =
     (case checkBlob ev (processor ctx blob p) of (b, e) \<Rightarrow>
        if e = None then (b, None)
        else if e = Some ErrPass then
          (if \<not> isBlobEmpty b then process_chain ev ctx p rest b err
           else process_chain ev ctx p rest blob err)
        else if is_err e ContextDeadlineExceeded then (blob, e)
        else process_chain ev ctx p rest blob e)"

section \<open>The result cache probe\<close>

text \<open>\<open>storageStat\<close> (lines 416 to 423).\<close>

fun storageStat_loop ::
  "ctxt \<Rightarrow> storage list \<Rightarrow> string \<Rightarrow> stat option \<times> error option
    \<Rightarrow> stat option \<times> error option" where
  "storageStat_loop ctx [] key prev = prev"
| "storageStat_loop ctx (s # ss) key prev =
     (case storage_Stat s ctx key of (st, err) \<Rightarrow>
        if st \<noteq> None \<and> err = None then (st, err)
        else storageStat_loop ctx ss key (st, err))"

definition storageStat :: "imagor \<Rightarrow> ctxt \<Rightarrow> string \<Rightarrow> stat option \<times> error option" where
  "storageStat app ctx key = storageStat_loop ctx (Storages app) key (None, None)"

text \<open>\<open>t.Before(u)\<close> of \<open>time.Time\<close>, the instants being integers.\<close>

definition Before :: "int \<Rightarrow> int \<Rightarrow> bool" where
  "Before t u = (t < u)"

text \<open>\<open>loadResult\<close> (lines 334 to 351); \<open>None\<close> is the nil blob it returns on a miss.\<close>

definition loadResult :: "imagor \<Rightarrow> env \<Rightarrow> request \<Rightarrow> string \<Rightarrow> string \<Rightarrow> bool \<Rightarrow> blob option" where
  "loadResult app ev r resultKey imageKey metaMode =
     (let ctx = req_ctx r in
      case load app ev r (ResultStorages app) [] resultKey metaMode of (blob, origin, err) \<Rightarrow>
        if err = None \<and> (\<not> isBlobEmpty blob \<or> metaMode) then
          (case (ModifiedTimeCheck app, origin) of
             (True, Some org) \<Rightarrow>
               (case storage_Stat org ctx resultKey of
                  (Some resStat, None) \<Rightarrow>
                    (case storageStat app ctx imageKey of
                       (Some sourceStat, None) \<Rightarrow>
                         if \<not> Before (ModifiedTime resStat) (ModifiedTime sourceStat)
                         then blob else None
                     | _ \<Rightarrow> None)
                | _ \<Rightarrow> None)
           | _ \<Rightarrow> blob)
        else None)"

section \<open>Saving, deleting and the singleflight wrapper\<close>

text \<open>
  \<open>save\<close> and \<open>del\<close> (lines 425 to 462) start one \<open>Put\<close> or \<open>Delete\<close> per storage and wait
  for all of them; their errors are only logged. The calls run concurrently: the trace
  lists them in the order of the storages.
\<close>

definition save :: "storage list \<Rightarrow> string \<Rightarrow> blob option \<Rightarrow> event list" where
  "save storages key blob = map (\<lambda>s. Put (storage_name s) key blob) storages"

definition del :: "storage list \<Rightarrow> string \<Rightarrow> event list" where
  "del storages key = map (\<lambda>s. Delete (storage_name s) key) storages"

text \<open>
  \<open>suppress\<close> (lines 468 to 501) once the marker is known to be absent, by the calls
  this caller meets in the group. \<open>fn\<close> takes the context and the variables it captures
  (\<open>st\<close>) and returns its result, its trace and the captured variables as it leaves them.
  \<^item> No call in flight: \<open>DoChan\<close> runs the closure, which calls \<open>fn\<close> on the context with
    the marker and forgets the key when \<open>fn\<close> fails with a cancellation; \<open>isCanceled\<close> is
    then true, so the result is never retried.
  \<^item> A call in flight: this caller only receives its result; a cancellation (with
    \<open>isCanceled\<close> false) makes it call \<open>suppress\<close> again.
  In both, a done context can make the \<open>select\<close> return \<open>ctx.Err()\<close> instead.
\<close>

fun suppress_calls ::
  "bool \<Rightarrow> ctxt \<Rightarrow> string \<Rightarrow> 's \<Rightarrow> (ctxt \<Rightarrow> 's \<Rightarrow> result \<times> event list \<times> 's) \<Rightarrow> result list
    \<Rightarrow> result \<times> event list \<times> 's" where
  "suppress_calls sel ctx key st fn [] =
     (case fn (WithValue ctx key) st of (res, evs, st') \<Rightarrow>
        let trace = DoChan key # evs @ (if is_err (snd res) ContextCanceled then [Forget key] else [])
        in if ctx_err ctx \<noteq> None \<and> sel then ((None, ctx_err ctx), trace, st')
           else (res, trace, st'))"
| "suppress_calls sel ctx key st fn (res # later) =
     (if ctx_err ctx \<noteq> None \<and> sel then ((None, ctx_err ctx), [DoChan key], st)
      else if is_err (snd res) ContextCanceled then
        (case suppress_calls sel ctx key st fn later of
           (res', evs, st') \<Rightarrow> (res', DoChan key # evs, st'))
      else (res, [DoChan key], st))"

definition suppress ::
  "env \<Rightarrow> ctxt \<Rightarrow> string \<Rightarrow> 's \<Rightarrow> (ctxt \<Rightarrow> 's \<Rightarrow> result \<times> event list \<times> 's)
    \<Rightarrow> result \<times> event list \<times> 's" where
  "suppress ev ctx key st fn =
     (if holds ctx key then fn ctx st
      else suppress_calls (select_done ev) ctx key st fn (inflight ev key))"

section \<open>Source fetch with save-back\<close>

text \<open>
  The closure of \<open>loadStorage\<close> (lines 321 to 330); the variable it captures and sets is
  \<open>isSave\<close>.
\<close>

definition loadStorage_fn ::
  "imagor \<Rightarrow> env \<Rightarrow> request \<Rightarrow> string \<Rightarrow> ctxt \<Rightarrow> bool \<Rightarrow> result \<times> event list \<times> bool" where
  "loadStorage_fn app ev r key ctx isSave =
     (case load app ev (WithContext r ctx) (Storages app) (Loaders app) key False of
        (blob, origin, err) \<Rightarrow>
          if err = None \<and> \<not> isBlobEmpty blob \<and> origin = None \<and> length (Storages app) > 0
          then ((blob, err), save (Storages app) key blob, True)
          else ((blob, err), [], isSave))"

text \<open>\<open>loadStorage\<close> (lines 319 to 332): the blob, \<open>isSave\<close>, the error, and the trace.\<close>

definition loadStorage ::
  "imagor \<Rightarrow> env \<Rightarrow> request \<Rightarrow> string \<Rightarrow> blob option \<times> bool \<times> error option \<times> event list" where
  "loadStorage app ev r key =
     (case suppress ev (req_ctx r) (''img:'' @ key) False (loadStorage_fn app ev r key) of
        ((b, err), evs, isSave) \<Rightarrow> (b, isSave, err, evs))"

section \<open>The engine\<close>

text \<open>\<open>strings.HasPrefix\<close>, \<open>strings.TrimPrefix\<close> and \<open>strings.Contains\<close>.\<close>

fun HasPrefix :: "string \<Rightarrow> string \<Rightarrow> bool" where
  "HasPrefix s [] = True"
| "HasPrefix [] (c # cs) = False"
| "HasPrefix (d # ds) (c # cs) = (d = c \<and> HasPrefix ds cs)"

definition TrimPrefix :: "string \<Rightarrow> string \<Rightarrow> string" where
  "TrimPrefix s pre = (if HasPrefix s pre then drop (length pre) s else s)"

fun Contains :: "string \<Rightarrow> string \<Rightarrow> bool" where
  "Contains [] sub = (sub = [])"
| "Contains (c # cs) sub = (HasPrefix (c # cs) sub \<or> Contains cs sub)"

text \<open>The signature gate (line 205).\<close>

definition sign_mismatch :: "imagor \<Rightarrow> params \<Rightarrow> bool" where
  "sign_mismatch app p =
     (\<not> (Unsafe app \<and> p_Unsafe p) \<and>
      (case Signer app of None \<Rightarrow> False | Some sign \<Rightarrow> sign (p_Path p) \<noteq> p_Hash p))"

text \<open>Base params and the automatic format filter (lines 212 to 240).\<close>

definition add_format :: "env \<Rightarrow> params \<Rightarrow> string \<Rightarrow> params" where
  "add_format ev p fmt =
     (let p1 = p\<lparr>p_Filters := p_Filters p @ [\<lparr>filter_Name = ''format'', filter_Args = fmt\<rparr>]\<rparr>
      in p1\<lparr>p_Path := GeneratePath ev p1\<rparr>)"

definition normalize :: "imagor \<Rightarrow> env \<Rightarrow> request \<Rightarrow> params \<Rightarrow> params" where
  "normalize app ev r p0 =
     (let p = (if BaseParams app \<noteq> [] then
                 (let p1 = Apply ev p0 (BaseParams app) in p1\<lparr>p_Path := GeneratePath ev p1\<rparr>)
               else p0)
      in if AutoWebP app \<or> AutoAVIF app then
           (let hasFormat = list_ex (\<lambda>f. filter_Name f = ''format'') (p_Filters p) in
            if \<not> hasFormat then
              (if AutoAVIF app \<and> Contains (req_accept r) ''image/avif'' then add_format ev p ''avif''
               else if AutoWebP app \<and> Contains (req_accept r) ''image/webp'' then add_format ev p ''webp''
               else p)
            else p)
         else p)"

text \<open>The result key (lines 241 to 246).\<close>

definition resultKey_of :: "imagor \<Rightarrow> params \<Rightarrow> string" where
  "resultKey_of app p =
     (case ResultKey app of Some generate \<Rightarrow> generate p | None \<Rightarrow> TrimPrefix (p_Path p) ''meta/'')"

text \<open>
  The closure \<open>Do\<close> hands to \<open>suppress\<close> (lines 256 to 316). \<open>r\<close> is the request as \<open>Do\<close>
  left it, \<open>ctx\<close> the context \<open>suppress\<close> passes in. The named results \<open>blob\<close> and \<open>err\<close>
  of \<open>Do\<close> are nil when the closure starts and nothing reads them after it.
\<close>

definition Do_fn ::
  "imagor \<Rightarrow> env \<Rightarrow> request \<Rightarrow> params \<Rightarrow> string \<Rightarrow> ctxt \<Rightarrow> unit \<Rightarrow> result \<times> event list \<times> unit" where
  "Do_fn app ev r p resultKey ctx u =
     (case (if \<not> p_Meta p then loadResult app ev r resultKey (p_Image p) False else None) of
        Some hit \<Rightarrow> ((Some hit, None), [], ())
      | None \<Rightarrow>
          (case (if ProcessConcurrency app > 0 then acquire ev ctx else None) of
             Some e \<Rightarrow> ((None, Some e), [], ())
           | None \<Rightarrow>
               (case loadStorage app ev r (p_Image p) of (blob, isSave, err, evs) \<Rightarrow>
                  if err \<noteq> None then ((blob, err), evs, ())
                  else if isBlobEmpty blob then ((blob, err), evs, ())
                  else
                    (let ctx' = (if ProcessTimeout app > 0 then WithTimeout ctx (ProcessTimeout app)
                                 else ctx)
                     in case process_chain ev ctx' p (Processors app) blob err of (blob', err') \<Rightarrow>
                          ((blob', err'),
                           evs
                           @ (if err' = None \<and> length (ResultStorages app) > 0
                              then save (ResultStorages app) resultKey blob' else [])
                           @ (if err' \<noteq> None \<and> isSave then del (Storages app) (p_Image p) else []),
                           ())))))"

text \<open>\<open>Do\<close> (lines 197 to 317): the blob and the error it returns, and its trace.\<close>

definition Do :: "imagor \<Rightarrow> env \<Rightarrow> request \<Rightarrow> params \<Rightarrow> result \<times> event list" where
  "Do app ev r0 p0 =
     (let ctx = (if RequestTimeout app > 0 then WithTimeout (req_ctx r0) (RequestTimeout app)
                 else req_ctx r0);
          r = (if RequestTimeout app > 0 then WithContext r0 ctx else r0)
      in if sign_mismatch app p0 then ((None, Some ErrSignatureMismatch), [])
         else
           (let p = normalize app ev r p0;
                resultKey = resultKey_of app p
            in case (if p_Meta p then loadResult app ev r resultKey (p_Image p) True else None) of
                 Some hit \<Rightarrow> ((Some hit, None), [])
               | None \<Rightarrow>
                   (case suppress ev ctx (''res:'' @ resultKey) () (Do_fn app ev r p resultKey) of
                      (res, evs, u) \<Rightarrow> (res, evs))))"

section \<open>The HTTP adapter\<close>

datatype body =
    NoBody
  | JSONVersion
  | JSONParams params
  | JSONMeta meta
  | JSONError herror
  | Bytes string

text \<open>
  What a handler leaves in the \<open>ResponseWriter\<close>: the status (200 unless \<open>WriteHeader\<close>
  is called), the content type and the redirect target if set, whether the cache
  headers were set, and the body written.
\<close>

record response =
  resp_status :: nat
  resp_content_type :: "string option"
  resp_location :: "string option"
  resp_cache :: bool
  resp_body :: body

definition empty_response :: response where
  "empty_response = \<lparr>resp_status = 200, resp_content_type = None, resp_location = None,
                      resp_cache = False, resp_body = NoBody\<rparr>"

text \<open>\<open>writeJSON\<close> and \<open>writeJSONIndent\<close> (lines 555 to 573): a HEAD request gets no body.\<close>

definition writeJSON :: "response \<Rightarrow> request \<Rightarrow> body \<Rightarrow> response" where
  "writeJSON w r v =
     w\<lparr>resp_content_type := Some ''application/json'',
       resp_body := (if req_method r \<noteq> ''HEAD'' then v else NoBody)\<rparr>"

text \<open>
  \<open>writeBody\<close> (lines 575 to 593) on the reader \<open>blob.NewReader()\<close> gave. Without a
  reader the deferred \<open>reader.Close()\<close> panics: \<open>None\<close>.
\<close>

definition writeBody :: "response \<Rightarrow> request \<Rightarrow> blob \<Rightarrow> response option" where
  "writeBody w r b =
     (if blob_opens b then
        Some (w\<lparr>resp_body := (if req_method r \<noteq> ''HEAD'' then Bytes (blob_bytes b) else NoBody)\<rparr>)
      else None)"

text \<open>\<open>blob.Meta\<close> of a blob that may be nil.\<close>

definition Meta_of :: "blob option \<Rightarrow> meta option" where
  "Meta_of blob = (case blob of None \<Rightarrow> None | Some b \<Rightarrow> blob_meta b)"

text \<open>\<open>ServeHTTP\<close> (lines 134 to 194): the response, or \<open>None\<close> when the handler panics.\<close>

definition ServeHTTP :: "imagor \<Rightarrow> env \<Rightarrow> request \<Rightarrow> response option" where
  "ServeHTTP app ev r =
     (let w = empty_response in
      if req_method r \<noteq> ''GET'' \<and> req_method r \<noteq> ''HEAD'' then Some (w\<lparr>resp_status := 405\<rparr>)
      else if req_path r = ''/'' \<or> req_path r = [] then
        (if BasePathRedirect app = [] then Some (writeJSON w r JSONVersion)
         else Some (w\<lparr>resp_status := 307, resp_location := Some (BasePathRedirect app)\<rparr>))
      else
        (let p = Parse ev (req_path r) in
         if p_Params p then
           (if \<not> DisableParamsEndpoint app then Some (writeJSON w r (JSONParams p)) else Some w)
         else
           (case checkBlob ev (fst (Do app ev r p)) of (blob, err) \<Rightarrow>
              (case (if err = None \<and> p_Meta p then Meta_of blob else None) of
                 Some m \<Rightarrow> Some (writeJSON w r (JSONMeta m))
               | None \<Rightarrow>
                 (let w1 = (case blob of
                              Some b \<Rightarrow> if \<not> isBlobEmpty blob
                                          then w\<lparr>resp_content_type := Some (blob_content_type b)\<rparr>
                                          else w
                            | None \<Rightarrow> w)
                  in case err of
                       Some e \<Rightarrow>
                         if errors_Is e ContextCanceled then Some (w1\<lparr>resp_status := 499\<rparr>)
                         else
                           (let herr = WrapError ev e in
                            if DisableErrorBody app then Some (w1\<lparr>resp_status := Code herr\<rparr>)
                            else
                              (case blob of
                                 Some b \<Rightarrow>
                                   if \<not> isBlobEmpty blob \<and> blob_opens b
                                   then writeBody (w1\<lparr>resp_status := Code herr\<rparr>) r b
                                   else Some (writeJSON (w1\<lparr>resp_status := Code herr\<rparr>) r (JSONError herr))
                               | None \<Rightarrow>
                                   Some (writeJSON (w1\<lparr>resp_status := Code herr\<rparr>) r (JSONError herr))))
                     | None \<Rightarrow>
                         (case blob of
                            Some b \<Rightarrow>
                              if isBlobEmpty blob then Some w1
                              else writeBody (w1\<lparr>resp_cache := True\<rparr>) r b
                          | None \<Rightarrow> Some w1))))))"

section \<open>Vocabulary of the properties\<close>

text \<open>
  What the handlers of one \<open>load\<close> in bytes mode return, in the order \<open>load\<close> consults
  them: the storages, then the loaders, each on the request \<open>load\<close> derives.
\<close>

definition outcomes ::
  "imagor \<Rightarrow> env \<Rightarrow> request \<Rightarrow> storage list \<Rightarrow> loader list \<Rightarrow> string \<Rightarrow> result list" where
  "outcomes app ev r0 storages loaders key =
     map (\<lambda>s. checkBlob ev (storage_Get s (load_request app r0) key)) storages
     @ map (\<lambda>l. checkBlob ev (l (load_request app r0) key)) loaders"

text \<open>A cleanly successful outcome: a non-empty blob and a nil error.\<close>

definition clean :: "result \<Rightarrow> bool" where
  "clean x = (\<not> isBlobEmpty (fst x) \<and> snd x = None)"

text \<open>The blob of the last outcome that has a non-empty one, nil when there is none.\<close>

definition last_nonempty :: "result list \<Rightarrow> blob option" where
  "last_nonempty outs =
     (let kept = filter (\<lambda>x. \<not> isBlobEmpty (fst x)) outs
      in if kept = [] then None else fst (last kept))"

text \<open>The error of the last outcome, nil when no handler was consulted.\<close>

definition last_error :: "result list \<Rightarrow> error option" where
  "last_error outs = (if outs = [] then None else snd (last outs))"

text \<open>
  The modified time a storage reports for a key, when its \<open>Stat\<close> succeeds (a stat and a
  nil error); the source's modified time is the one of the first source storage whose
  \<open>Stat\<close> succeeds.
\<close>

definition stat_time :: "storage \<Rightarrow> ctxt \<Rightarrow> string \<Rightarrow> int option" where
  "stat_time s ctx key =
     (case storage_Stat s ctx key of (Some st, None) \<Rightarrow> Some (ModifiedTime st) | _ \<Rightarrow> None)"

definition source_time :: "imagor \<Rightarrow> ctxt \<Rightarrow> string \<Rightarrow> int option" where
  "source_time app ctx key =
     (case find (\<lambda>s. stat_time s ctx key \<noteq> None) (Storages app) of
        None \<Rightarrow> None | Some s \<Rightarrow> stat_time s ctx key)"

text \<open>
  Whether a caller that does not hold the marker ends up running \<open>fn\<close> itself: every
  call it meets in flight must come back canceled while the \<open>select\<close> still takes the
  result.
\<close>

fun reaches_lead :: "bool \<Rightarrow> ctxt \<Rightarrow> result list \<Rightarrow> bool" where
  "reaches_lead sel ctx [] = True"
| "reaches_lead sel ctx (res # later) =
     (\<not> (ctx_err ctx \<noteq> None \<and> sel) \<and> is_err (snd res) ContextCanceled \<and> reaches_lead sel ctx later)"

text \<open>The context \<open>suppress\<close> runs \<open>fn\<close> on, \<open>None\<close> when it does not run \<open>fn\<close> at all.\<close>

definition runs_with :: "env \<Rightarrow> ctxt \<Rightarrow> string \<Rightarrow> ctxt option" where
  "runs_with ev ctx key =
     (if holds ctx key then Some ctx
      else if reaches_lead (select_done ev) ctx (inflight ev key) then Some (WithValue ctx key)
      else None)"

text \<open>
  A caller that leads the call for \<open>key\<close> and gets its result: no marker, no call in
  flight, and a \<open>select\<close> that takes the result.
\<close>

definition leads :: "env \<Rightarrow> ctxt \<Rightarrow> string \<Rightarrow> bool" where
  "leads ev ctx key =
     (\<not> holds ctx key \<and> inflight ev key = [] \<and> \<not> (ctx_err ctx \<noteq> None \<and> select_done ev))"

fun is_Put :: "event \<Rightarrow> bool" where
  "is_Put (Put name key blob) = True"
| "is_Put e = False"

fun is_Delete :: "event \<Rightarrow> bool" where
  "is_Delete (Delete name key) = True"
| "is_Delete e = False"

text \<open>The request and the context \<open>Do\<close> works with (lines 198 to 204).\<close>

definition Do_request :: "imagor \<Rightarrow> request \<Rightarrow> request" where
  "Do_request app r0 =
     (if RequestTimeout app > 0
      then WithContext r0 (WithTimeout (req_ctx r0) (RequestTimeout app)) else r0)"

text \<open>
  What the \<open>load\<close> inside a source fetch returns when the closure of \<open>loadStorage\<close> runs
  on the context \<open>c\<close>, and the condition of line 325 on it.
\<close>

definition fetch_load ::
  "imagor \<Rightarrow> env \<Rightarrow> request \<Rightarrow> string \<Rightarrow> ctxt \<Rightarrow> blob option \<times> storage option \<times> error option" where
  "fetch_load app ev r key c = load app ev (WithContext r c) (Storages app) (Loaders app) key False"

definition saves_back :: "imagor \<Rightarrow> env \<Rightarrow> request \<Rightarrow> string \<Rightarrow> ctxt \<Rightarrow> bool" where
  "saves_back app ev r key c =
     (case fetch_load app ev r key c of (blob, origin, err) \<Rightarrow>
        err = None \<and> \<not> isBlobEmpty blob \<and> origin = None \<and> Storages app \<noteq> [])"

text \<open>
  How the processor chain of one run of the closure of \<open>Do\<close> ended: the blob and error
  it left and the \<open>isSave\<close> flag of the source fetch; \<open>None\<close> when the closure returns
  before the chain (a result cache hit, no permit, a failed or empty source).
\<close>

definition chain_end ::
  "imagor \<Rightarrow> env \<Rightarrow> request \<Rightarrow> params \<Rightarrow> string \<Rightarrow> ctxt \<Rightarrow> (result \<times> bool) option" where
  "chain_end app ev r p resultKey ctx =
     (if \<not> p_Meta p \<and> loadResult app ev r resultKey (p_Image p) False \<noteq> None then None
      else if ProcessConcurrency app > 0 \<and> acquire ev ctx \<noteq> None then None
      else
        (case loadStorage app ev r (p_Image p) of (blob, isSave, err, evs) \<Rightarrow>
           if err \<noteq> None \<or> isBlobEmpty blob then None
           else Some (process_chain ev
                        (if ProcessTimeout app > 0 then WithTimeout ctx (ProcessTimeout app) else ctx)
                        p (Processors app) blob err, isSave)))"

text \<open>
  The trace of the source fetch inside one run of the closure of \<open>Do\<close>, empty when the
  closure returns before it.
\<close>

definition fetch_events ::
  "imagor \<Rightarrow> env \<Rightarrow> request \<Rightarrow> params \<Rightarrow> string \<Rightarrow> ctxt \<Rightarrow> event list" where
  "fetch_events app ev r p resultKey ctx =
     (if \<not> p_Meta p \<and> loadResult app ev r resultKey (p_Image p) False \<noteq> None then []
      else if ProcessConcurrency app > 0 \<and> acquire ev ctx \<noteq> None then []
      else snd (snd (snd (loadStorage app ev r (p_Image p)))))"

text \<open>
  The context on which a request runs the closure of \<open>Do\<close>: none when the signature
  does not match, when the meta probe hits, or when \<open>suppress\<close> does not run it.
\<close>

definition engine_ctx :: "imagor \<Rightarrow> env \<Rightarrow> request \<Rightarrow> params \<Rightarrow> ctxt option" where
  "engine_ctx app ev r0 p0 =
     (let r = Do_request app r0; p = normalize app ev r p0; resultKey = resultKey_of app p
      in if sign_mismatch app p0 then None
         else if p_Meta p \<and> loadResult app ev r resultKey (p_Image p) True \<noteq> None then None
         else runs_with ev (req_ctx r) (''res:'' @ resultKey))"

text \<open>A processor that, given \<open>blob\<close>, passes without a blob of its own.\<close>

definition passes :: "env \<Rightarrow> ctxt \<Rightarrow> params \<Rightarrow> blob option \<Rightarrow> processor \<Rightarrow> bool" where
  "passes ev ctx p blob processor =
     (snd (checkBlob ev (processor ctx blob p)) = Some ErrPass
      \<and> isBlobEmpty (fst (checkBlob ev (processor ctx blob p))))"

section \<open>The error surface\<close>

text \<open>
  Modelled from the spec: \<open>WrapError\<close> and the \<open>Error\<close> values are defined outside
  \<open>imagor.go\<close>. Section 7 of the spec gives each kind its status code, maps a
  deadline-exceeded error to the timeout kind and anything unknown to \<open>ErrInternal\<close>
  (a canceled context among them, which the handler answers before it wraps), and has
  \<open>ErrPass\<close> never shown to the user but rewritten to \<open>ErrNotFound\<close> at the surface.
\<close>

definition WrapError_spec :: "error \<Rightarrow> herror" where
  "WrapError_spec e =
     (if e = ErrSignatureMismatch then \<lparr>Message = ''signature mismatch'', Code = 403\<rparr>
      else if e = ErrNotFound \<or> e = ErrPass then \<lparr>Message = ''not found'', Code = 404\<rparr>
      else if e = ErrTimeout \<or> errors_Is e ContextDeadlineExceeded
        then \<lparr>Message = ''timeout'', Code = 408\<rparr>
      else if e = ErrUnsupportedFormat then \<lparr>Message = ''unsupported format'', Code = 406\<rparr>
      else if e = ErrMaxResolutionExceeded
        then \<lparr>Message = ''maximum resolution exceeded'', Code = 422\<rparr>
      else if e = ErrMaxSizeExceeded then \<lparr>Message = ''maximum size exceeded'', Code = 422\<rparr>
      else \<lparr>Message = ''internal error'', Code = 500\<rparr>)"

section \<open>Concrete configurations\<close>

definition ctx_live :: ctxt where
  "ctx_live = \<lparr>ctx_err = None, ctx_held = [], ctx_timeout = None\<rparr>"

definition ctx_canceled :: ctxt where
  "ctx_canceled = \<lparr>ctx_err = Some ContextCanceled, ctx_held = [], ctx_timeout = None\<rparr>"

definition req_get :: request where
  "req_get = \<lparr>req_method = ''GET'', req_path = ''/unsafe/img'', req_accept = [], req_ctx = ctx_live\<rparr>"

definition params_img :: params where
  "params_img = \<lparr>p_Params = False, p_Path = ''img'', p_Image = ''img'', p_Unsafe = True,
                  p_Hash = [], p_Meta = False, p_Filters = []\<rparr>"

text \<open>
  An environment for the examples: \<open>checkBlob\<close> changes nothing, \<open>WrapError\<close> is the one
  of the spec, every path parses to \<open>params_img\<close>, no other call is in flight and the
  semaphore is free.
\<close>

definition env_plain :: env where
  "env_plain = \<lparr>checkBlob = (\<lambda>x. x), WrapError = WrapError_spec, Parse = (\<lambda>path. params_img),
                 Apply = (\<lambda>p base. p), GeneratePath = p_Path, inflight = (\<lambda>key. []),
                 select_done = True, acquire = (\<lambda>ctx. None)\<rparr>"

definition blob_a :: blob where
  "blob_a = \<lparr>blob_bytes = ''aaa'', blob_content_type = ''image/png'', blob_meta = None,
              blob_opens = True\<rparr>"

definition blob_b :: blob where
  "blob_b = \<lparr>blob_bytes = ''bbb'', blob_content_type = ''image/png'', blob_meta = None,
              blob_opens = True\<rparr>"

definition stat_at :: "int \<Rightarrow> ctxt \<Rightarrow> string \<Rightarrow> stat option \<times> error option" where
  "stat_at t ctx key = (Some \<lparr>ModifiedTime = t\<rparr>, None)"

text \<open>A storage called \<open>name\<close> whose \<open>Get\<close> always returns \<open>res\<close>; no stat, no meta.\<close>

definition storage_const :: "string \<Rightarrow> result \<Rightarrow> storage" where
  "storage_const name res =
     \<lparr>storage_name = name, storage_Get = (\<lambda>r key. res),
      storage_Stat = (\<lambda>ctx key. (None, Some ErrNotFound)),
      storage_Meta = (\<lambda>ctx key. (None, Some ErrNotFound))\<rparr>"

definition loader_const :: "result \<Rightarrow> loader" where
  "loader_const res = (\<lambda>r key. res)"

definition processor_const :: "result \<Rightarrow> processor" where
  "processor_const res = (\<lambda>ctx blob p. res)"

definition st_fail_a :: storage where
  "st_fail_a = storage_const ''s1'' (Some blob_a, Some ErrTimeout)"

definition st_fail_b :: storage where
  "st_fail_b = storage_const ''s2'' (Some blob_b, Some ErrInternal)"

definition st_hit_b :: storage where
  "st_hit_b = storage_const ''s2'' (Some blob_b, None)"

definition st_nil :: storage where
  "st_nil = storage_const ''s3'' (None, None)"

definition st_notfound :: storage where
  "st_notfound = storage_const ''s4'' (None, Some ErrNotFound)"

text \<open>An engine in unsafe mode with nothing configured and no timeouts.\<close>

definition app_bare :: imagor where
  "app_bare = \<lparr>Unsafe = True, Signer = None, BasePathRedirect = [], Loaders = [], Storages = [],
                ResultStorages = [], Processors = [], RequestTimeout = 0, LoadTimeout = 0,
                SaveTimeout = 0, ProcessTimeout = 0, ProcessConcurrency = 0, AutoWebP = False,
                AutoAVIF = False, ModifiedTimeCheck = False, DisableErrorBody = False,
                DisableParamsEndpoint = False, BaseParams = [], ResultKey = None\<rparr>"

text \<open>A storage that also reports the modified time \<open>t\<close> for every key.\<close>

definition storage_stat :: "string \<Rightarrow> result \<Rightarrow> int \<Rightarrow> storage" where
  "storage_stat name res t = (storage_const name res)\<lparr>storage_Stat := stat_at t\<rparr>"

text \<open>
  A result storage holding \<open>blob_b\<close>, written at time 5, and two source storages: the
  first cannot stat, the second reports the time \<open>t\<close>.
\<close>

definition app_cached :: "int \<Rightarrow> imagor" where
  "app_cached t =
     app_bare\<lparr>ResultStorages := [storage_stat ''res'' (Some blob_b, None) 5],
              Storages := [st_notfound, storage_stat ''src'' (Some blob_a, None) t],
              ModifiedTimeCheck := True\<rparr>"

text \<open>
  Meta mode: a result storage that knows the meta of every key and was written at time
  5, alone (\<open>app_meta_one\<close>) and behind a result storage that knows nothing
  (\<open>app_meta_two\<close>); the source was modified at time 3.
\<close>

definition meta_png :: meta where
  "meta_png = \<lparr>meta_format = ''png'', meta_content_type = ''image/png'', meta_width = 4,
                meta_height = 3, meta_orientation = 1\<rparr>"

definition st_meta :: storage where
  "st_meta = (storage_stat ''res'' (Some blob_b, None) 5)
               \<lparr>storage_Meta := (\<lambda>ctx key. (Some meta_png, None))\<rparr>"

definition app_meta_one :: imagor where
  "app_meta_one =
     app_bare\<lparr>ResultStorages := [st_meta],
              Storages := [storage_stat ''src'' (Some blob_a, None) 3],
              ModifiedTimeCheck := True\<rparr>"

definition app_meta_two :: imagor where
  "app_meta_two = app_meta_one\<lparr>ResultStorages := [st_notfound, st_meta]\<rparr>"

text \<open>
  A closure for \<open>suppress\<close> that returns \<open>blob_a\<close> and records, in the variable it
  captures, whether the context it runs on holds the marker of \<open>key\<close>.
\<close>

definition fn_probe :: "string \<Rightarrow> ctxt \<Rightarrow> bool \<Rightarrow> result \<times> event list \<times> bool" where
  "fn_probe key c st = ((Some blob_a, None), [], holds c key)"

text \<open>
  A loader that serves \<open>blob_a\<close>, a source storage that misses and a result storage:
  with no processor (\<open>app_raw\<close>), and with one processor that fails (\<open>app_failing\<close>).
\<close>

definition app_raw :: imagor where
  "app_raw = app_bare\<lparr>Loaders := [loader_const (Some blob_a, None)], Storages := [st_nil],
                       ResultStorages := [storage_const ''res'' (None, Some ErrNotFound)]\<rparr>"

definition app_failing :: imagor where
  "app_failing = app_raw\<lparr>Processors := [processor_const (None, Some ErrInternal)]\<rparr>"

text \<open>
  The same with one processor that passes without a blob (\<open>app_passing\<close>), and with one
  processor that succeeds with \<open>blob_b\<close> (\<open>app_processed\<close>).
\<close>

definition app_passing :: imagor where
  "app_passing = app_raw\<lparr>Processors := [processor_const (None, Some ErrPass)]\<rparr>"

definition app_processed :: imagor where
  "app_processed = app_raw\<lparr>Processors := [processor_const (Some blob_b, None)]\<rparr>"

text \<open>
  An engine that checks signatures, a request whose context is already canceled, and
  an engine whose only loader fails with a cancellation of its own.
\<close>

definition app_signed :: imagor where
  "app_signed = app_bare\<lparr>Unsafe := False, Signer := Some (\<lambda>path. ''sig'')\<rparr>"

definition req_canceled :: request where
  "req_canceled = req_get\<lparr>req_ctx := ctx_canceled\<rparr>"

definition app_loader_canceled :: imagor where
  "app_loader_canceled = app_bare\<lparr>Loaders := [loader_const (None, Some ContextCanceled)]\<rparr>"

text \<open>A processor that succeeds with the blob it is given.\<close>

definition processor_echo :: processor where
  "processor_echo = (\<lambda>ctx blob p. (blob, None))"

definition deadline_error :: error where
  "deadline_error = Wrapped ''process'' ContextDeadlineExceeded"

text \<open>Loaders only: the first times out, the second passes.\<close>

definition app_timeout_pass :: imagor where
  "app_timeout_pass =
     app_bare\<lparr>Loaders := [loader_const (None, Some ErrTimeout), loader_const (None, Some ErrPass)]\<rparr>"

section \<open>Properties of the load pipeline\<close>

text \<open>
  The values of \<open>blob\<close> and \<open>err\<close> after a run of handlers none of which returned a
  clean result.
\<close>

lemma load_storages_no_clean:
  "\<forall>s \<in> set ss. \<not> clean (checkBlob ev (storage_Get s r key)) \<Longrightarrow>
   load_storages ev r ss key blob err =
     Inr (let kept = filter (\<lambda>x. \<not> isBlobEmpty (fst x)) (map (\<lambda>s. checkBlob ev (storage_Get s r key)) ss)
          in if kept = [] then blob else fst (last kept),
          if ss = [] then err else snd (last (map (\<lambda>s. checkBlob ev (storage_Get s r key)) ss)))"
proof (induction ss arbitrary: blob err)
  case Nil
  then show ?case by simp
next
  case (Cons s ss)
  obtain b e where be: "checkBlob ev (storage_Get s r key) = (b, e)"
    by (cases "checkBlob ev (storage_Get s r key)")
  from Cons.prems have rest: "\<forall>s \<in> set ss. \<not> clean (checkBlob ev (storage_Get s r key))" by simp
  from Cons.prems be have nc: "isBlobEmpty b \<or> e \<noteq> None" by (auto simp: clean_def)
  show ?case
    using nc be Cons.IH[OF rest] by (auto simp: Let_def)
qed

lemma load_storages_first_clean:
  "\<forall>s \<in> set pre. \<not> clean (checkBlob ev (storage_Get s r key)) \<Longrightarrow>
   clean (checkBlob ev (storage_Get s r key)) \<Longrightarrow>
   load_storages ev r (pre @ s # post) key blob err =
     Inl (fst (checkBlob ev (storage_Get s r key)), Some s, None)"
proof (induction pre arbitrary: blob err)
  case Nil
  then show ?case by (cases "checkBlob ev (storage_Get s r key)") (auto simp: clean_def)
next
  case (Cons a pre)
  then show ?case by (cases "checkBlob ev (storage_Get a r key)") (auto simp: clean_def)
qed

lemma load_loaders_no_clean:
  "\<forall>l \<in> set ls. \<not> clean (checkBlob ev (l r key)) \<Longrightarrow>
   load_loaders ev r ls key blob err =
     Inr (let kept = filter (\<lambda>x. \<not> isBlobEmpty (fst x)) (map (\<lambda>l. checkBlob ev (l r key)) ls)
          in if kept = [] then blob else fst (last kept),
          if ls = [] then err else snd (last (map (\<lambda>l. checkBlob ev (l r key)) ls)))"
proof (induction ls arbitrary: blob err)
  case Nil
  then show ?case by simp
next
  case (Cons l ls)
  obtain b e where be: "checkBlob ev (l r key) = (b, e)" by (cases "checkBlob ev (l r key)")
  from Cons.prems have rest: "\<forall>l \<in> set ls. \<not> clean (checkBlob ev (l r key))" by simp
  from Cons.prems be have nc: "isBlobEmpty b \<or> e \<noteq> None" by (auto simp: clean_def)
  show ?case
    using nc be Cons.IH[OF rest] by (auto simp: Let_def)
qed

lemma load_loaders_first_clean:
  "\<forall>l \<in> set pre. \<not> clean (checkBlob ev (l r key)) \<Longrightarrow>
   clean (checkBlob ev (l r key)) \<Longrightarrow>
   load_loaders ev r (pre @ l # post) key blob err =
     Inl (fst (checkBlob ev (l r key)), None, None)"
proof (induction pre arbitrary: blob err)
  case Nil
  then show ?case by (cases "checkBlob ev (l r key)") (auto simp: clean_def)
next
  case (Cons a pre)
  then show ?case by (cases "checkBlob ev (a r key)") (auto simp: clean_def)
qed

lemma nonempty_not_None: "\<not> isBlobEmpty b \<Longrightarrow> b \<noteq> None"
  by (cases b) (simp_all add: isBlobEmpty_def)

lemma last_nonempty_empty_iff:
  "isBlobEmpty (last_nonempty outs) \<longleftrightarrow> last_nonempty outs = None"
proof (cases "filter (\<lambda>x. \<not> isBlobEmpty (fst x)) outs = []")
  case True
  then show ?thesis by (simp add: last_nonempty_def isBlobEmpty_def)
next
  case False
  then have "last (filter (\<lambda>x. \<not> isBlobEmpty (fst x)) outs) \<in> set (filter (\<lambda>x. \<not> isBlobEmpty (fst x)) outs)"
    by (rule last_in_set)
  then have ne: "\<not> isBlobEmpty (fst (last (filter (\<lambda>x. \<not> isBlobEmpty (fst x)) outs)))" by simp
  from ne have "fst (last (filter (\<lambda>x. \<not> isBlobEmpty (fst x)) outs)) \<noteq> None"
    by (rule nonempty_not_None)
  with ne False show ?thesis by (simp add: last_nonempty_def Let_def)
qed

lemma load_request_unfold:
  "(if LoadTimeout app > 0
    then WithContext r0 (if LoadTimeout app > 0 then WithTimeout (req_ctx r0) (LoadTimeout app)
                         else req_ctx r0)
    else r0) = load_request app r0"
  by (simp add: load_request_def)

lemma load_bytes_unfold:
  "key \<noteq> [] \<Longrightarrow>
   load app ev r0 ss ls key False =
     (case load_storages ev (load_request app r0) ss key None None of
        Inl ret \<Rightarrow> ret
      | Inr (blob, err) \<Rightarrow>
          (case load_loaders ev (load_request app r0) ls key blob err of
             Inl ret \<Rightarrow> ret
           | Inr (blob', err') \<Rightarrow>
               if err' = None \<and> isBlobEmpty blob' then (blob', None, Some ErrNotFound)
               else (blob', None, err')))"
  unfolding load_def Let_def load_request_unfold by simp

lemma load_loops_no_clean:
  assumes nc: "\<forall>x \<in> set (outcomes app ev r0 ss ls key). \<not> clean x"
  shows "load_storages ev (load_request app r0) ss key None None = Inr (blobS, errS) \<Longrightarrow>
         load_loaders ev (load_request app r0) ls key blobS errS =
           Inr (last_nonempty (outcomes app ev r0 ss ls key),
                last_error (outcomes app ev r0 ss ls key))"
proof -
  let ?r = "load_request app r0"
  assume S: "load_storages ev ?r ss key None None = Inr (blobS, errS)"
  from nc have ncs: "\<forall>s \<in> set ss. \<not> clean (checkBlob ev (storage_Get s ?r key))"
    and ncl: "\<forall>l \<in> set ls. \<not> clean (checkBlob ev (l ?r key))"
    by (auto simp: outcomes_def)
  from S have bS: "blobS = (let kept = filter (\<lambda>x. \<not> isBlobEmpty (fst x)) (map (\<lambda>s. checkBlob ev (storage_Get s ?r key)) ss)
          in if kept = [] then None else fst (last kept))"
    and eS: "errS = (if ss = [] then None else snd (last (map (\<lambda>s. checkBlob ev (storage_Get s ?r key)) ss)))"
    unfolding load_storages_no_clean[OF ncs] by simp_all
  show ?thesis
    unfolding load_loaders_no_clean[OF ncl] bS eS
    by (simp add: last_nonempty_def last_error_def outcomes_def Let_def)
qed

lemma load_bytes_no_clean:
  assumes key: "key \<noteq> []"
    and nc: "\<forall>x \<in> set (outcomes app ev r0 ss ls key). \<not> clean x"
  shows "load app ev r0 ss ls key False =
           (last_nonempty (outcomes app ev r0 ss ls key), None,
            if last_error (outcomes app ev r0 ss ls key) = None
               \<and> last_nonempty (outcomes app ev r0 ss ls key) = None
            then Some ErrNotFound else last_error (outcomes app ev r0 ss ls key))"
proof -
  let ?r = "load_request app r0"
  from nc have ncs: "\<forall>s \<in> set ss. \<not> clean (checkBlob ev (storage_Get s ?r key))"
    by (auto simp: outcomes_def)
  obtain blobS errS where S: "load_storages ev ?r ss key None None = Inr (blobS, errS)"
    unfolding load_storages_no_clean[OF ncs] by simp
  note L = load_loops_no_clean[OF nc S]
  show ?thesis
    using last_nonempty_empty_iff[of "outcomes app ev r0 ss ls key"]
    by (simp add: load_bytes_unfold[OF key] S L)
qed

lemma map_splitE:
  assumes "map f xs = pre @ x # post"
  obtains xs1 s xs2 where "xs = xs1 @ s # xs2" and "pre = map f xs1" and "x = f s"
proof -
  from assms have "\<exists>xs1 s xs2. xs = xs1 @ s # xs2 \<and> pre = map f xs1 \<and> x = f s"
  proof (induction pre arbitrary: xs)
    case Nil
    then obtain s xs2 where "xs = s # xs2" "x = f s" by (cases xs) auto
    then have h: "xs = [] @ s # xs2 \<and> [] = map f [] \<and> x = f s" by simp
    show ?case by (rule exI[of _ "[]"], rule exI[of _ s], rule exI[of _ xs2], rule h)
  next
    case (Cons a pre)
    then obtain b xs' where xs: "xs = b # xs'" and a: "a = f b" and rest: "map f xs' = pre @ x # post"
      by (cases xs) auto
    from Cons.IH[OF rest] obtain xs1 s xs2 where "xs' = xs1 @ s # xs2" "pre = map f xs1" "x = f s"
      by (elim exE conjE)
    with xs a have h: "xs = (b # xs1) @ s # xs2 \<and> a # pre = map f (b # xs1) \<and> x = f s" by simp
    show ?case by (rule exI[of _ "b # xs1"], rule exI[of _ s], rule exI[of _ xs2], rule h)
  qed
  then obtain xs1 s xs2 where "xs = xs1 @ s # xs2" "pre = map f xs1" "x = f s"
    by (elim exE conjE)
  then show ?thesis by (rule that)
qed

lemma append_splitE:
  assumes "A @ B = pre @ x # post"
  obtains (left) us where "A = pre @ x # us"
        | (right) us where "pre = A @ us" and "B = us @ x # post"
proof -
  from assms have "(\<exists>us. A = pre @ x # us) \<or> (\<exists>us. pre = A @ us \<and> B = us @ x # post)"
  proof (induction A arbitrary: pre)
    case Nil
    then show ?case by simp
  next
    case (Cons a A)
    show ?case
    proof (cases pre)
      case Nil
      with Cons.prems show ?thesis by simp
    next
      case (Cons p pre')
      with Cons.prems have "a = p" and "A @ B = pre' @ x # post" by simp_all
      with Cons.IH[of pre'] Cons show ?thesis by auto
    qed
  qed
  then show ?thesis using left right by blast
qed

lemma load_bytes_first_clean:
  assumes key: "key \<noteq> []"
    and split: "outcomes app ev r0 ss ls key = pre @ x # post"
    and nc: "\<forall>y \<in> set pre. \<not> clean y"
    and cl: "clean x"
  shows "load app ev r0 ss ls key False =
           (fst x, if length pre < length ss then Some (ss ! length pre) else None, None)"
proof -
  let ?r = "load_request app r0"
  let ?f = "\<lambda>s. checkBlob ev (storage_Get s ?r key)"
  let ?g = "\<lambda>l. checkBlob ev (l ?r key)"
  have outs: "map ?f ss @ map ?g ls = pre @ x # post"
    using split by (simp add: outcomes_def)
  then show ?thesis
  proof (cases rule: append_splitE)
    case (left us)
    then obtain ss1 s ss3 where ss: "ss = ss1 @ s # ss3" and pre: "pre = map ?f ss1"
      and x: "x = ?f s"
      by (rule map_splitE)
    have len: "length pre = length ss1" using pre by simp
    have ncs: "\<forall>s \<in> set ss1. \<not> clean (?f s)" using nc unfolding pre by simp
    have cls: "clean (?f s)" using cl x by simp
    have "load_storages ev ?r ss key None None = Inl (fst x, Some s, None)"
      unfolding ss x
      by (rule load_storages_first_clean[where pre=ss1 and ev=ev and r="?r" and key=key and s=s, OF ncs cls])
    moreover have "length pre < length ss" "ss ! length pre = s"
      unfolding len ss by simp_all
    ultimately show ?thesis
      unfolding load_bytes_unfold[OF key] by simp
  next
    case (right us)
    from right(2) obtain ls1 l ls3 where ls: "ls = ls1 @ l # ls3" and us: "us = map ?g ls1"
      and x: "x = ?g l"
      by (rule map_splitE)
    have ncs: "\<forall>s \<in> set ss. \<not> clean (?f s)" using nc unfolding right(1) by simp
    have ncl: "\<forall>l \<in> set ls1. \<not> clean (?g l)" using nc unfolding right(1) us by simp
    have cll: "clean (?g l)" using cl x by simp
    have "\<And>blob err. load_loaders ev ?r ls key blob err = Inl (fst x, None, None)"
      unfolding ls x
      by (rule load_loaders_first_clean[where pre=ls1 and ev=ev and r="?r" and key=key and l=l, OF ncl cll])
    moreover have "\<not> length pre < length ss" unfolding right(1) by simp
    ultimately show ?thesis
      unfolding load_bytes_unfold[OF key] load_storages_no_clean[OF ncs] by simp
  qed
qed

lemma first_clean_split:
  assumes "\<exists>x \<in> set outs. clean x"
  obtains pre x post where "outs = pre @ x # post" and "\<forall>y \<in> set pre. \<not> clean y" and "clean x"
proof -
  from split_list_first_prop[OF assms]
  obtain pre x post where "outs = pre @ x # post" "clean x" "\<forall>y \<in> set pre. \<not> clean y"
    by blast
  then show ?thesis by (intro that)
qed

lemma last_nonempty_None_iff:
  "last_nonempty outs = None \<longleftrightarrow> (\<forall>x \<in> set outs. isBlobEmpty (fst x))"
proof
  assume n: "last_nonempty outs = None"
  have "filter (\<lambda>x. \<not> isBlobEmpty (fst x)) outs = []"
  proof (rule ccontr)
    assume ne: "filter (\<lambda>x. \<not> isBlobEmpty (fst x)) outs \<noteq> []"
    then have "last (filter (\<lambda>x. \<not> isBlobEmpty (fst x)) outs) \<in> set (filter (\<lambda>x. \<not> isBlobEmpty (fst x)) outs)"
      by (rule last_in_set)
    then have "\<not> isBlobEmpty (fst (last (filter (\<lambda>x. \<not> isBlobEmpty (fst x)) outs)))" by simp
    then have "fst (last (filter (\<lambda>x. \<not> isBlobEmpty (fst x)) outs)) \<noteq> None"
      by (rule nonempty_not_None)
    with n ne show False by (simp add: last_nonempty_def Let_def)
  qed
  then show "\<forall>x \<in> set outs. isBlobEmpty (fst x)" by (simp add: filter_empty_conv)
next
  assume "\<forall>x \<in> set outs. isBlobEmpty (fst x)"
  then have "filter (\<lambda>x. \<not> isBlobEmpty (fst x)) outs = []" by (simp add: filter_empty_conv)
  then show "last_nonempty outs = None" by (simp add: last_nonempty_def)
qed

lemma empty_not_clean: "isBlobEmpty (fst x) \<Longrightarrow> \<not> clean x"
  by (simp add: clean_def)

text \<open>
  Claim C1, as the code has it. In bytes mode with a non-empty key, \<open>load\<close> returns at the
  first handler (storages in order, then loaders in order) that yields a non-empty blob
  with a nil error: it returns that blob and a nil error, with that storage as origin,
  or no origin when the handler is a loader. When no handler yields such a result,
  \<open>load\<close> returns the non-empty blob of the latest handler that produced one (not of
  the first one), with no origin. So a non-empty blob that came with an error is
  returned only if no handler produced a clean result.
\<close>

theorem load_first_clean_or_latest_blob:
  assumes key: "key \<noteq> []"
  shows "(\<forall>pre x post.
            outcomes app ev r ss ls key = pre @ x # post \<and> (\<forall>y \<in> set pre. \<not> clean y) \<and> clean x \<longrightarrow>
            load app ev r ss ls key False =
              (fst x, if length pre < length ss then Some (ss ! length pre) else None, None))
       \<and> ((\<forall>x \<in> set (outcomes app ev r ss ls key). \<not> clean x) \<longrightarrow>
            fst (load app ev r ss ls key False) = last_nonempty (outcomes app ev r ss ls key)
            \<and> fst (snd (load app ev r ss ls key False)) = None)"
proof (intro conjI allI impI)
  fix pre x post
  assume h: "outcomes app ev r ss ls key = pre @ x # post \<and> (\<forall>y \<in> set pre. \<not> clean y) \<and> clean x"
  from h have a: "outcomes app ev r ss ls key = pre @ x # post" and b: "\<forall>y \<in> set pre. \<not> clean y"
    and c: "clean x" by simp_all
  show "load app ev r ss ls key False =
          (fst x, if length pre < length ss then Some (ss ! length pre) else None, None)"
    by (rule load_bytes_first_clean[OF key a b c])
next
  assume nc: "\<forall>x \<in> set (outcomes app ev r ss ls key). \<not> clean x"
  show "fst (load app ev r ss ls key False) = last_nonempty (outcomes app ev r ss ls key)"
    unfolding load_bytes_no_clean[OF key nc] by simp
  show "fst (snd (load app ev r ss ls key False)) = None"
    unfolding load_bytes_no_clean[OF key nc] by simp
qed

lemma outcomes_fail_hit:
  "outcomes app_bare env_plain req_get [st_fail_a, st_hit_b] [] ''img''
     = [(Some blob_a, Some ErrTimeout)] @ (Some blob_b, None) # []"
  by (simp add: outcomes_def env_plain_def st_fail_a_def st_hit_b_def storage_const_def)

lemma outcomes_fail_fail:
  "outcomes app_bare env_plain req_get [st_fail_a, st_fail_b] [] ''img''
     = [(Some blob_a, Some ErrTimeout), (Some blob_b, Some ErrInternal)]"
  by (simp add: outcomes_def env_plain_def st_fail_a_def st_fail_b_def storage_const_def)

lemma blob_a_nonempty: "\<not> isBlobEmpty (Some blob_a)"
  by (simp add: isBlobEmpty_def blob_a_def)

lemma blob_b_nonempty: "\<not> isBlobEmpty (Some blob_b)"
  by (simp add: isBlobEmpty_def blob_b_def)

text \<open>
  The theorem at two storages: a failing one with a blob followed by a clean hit, and
  two failing ones with a blob each.
\<close>

theorem load_first_clean_or_latest_blob_witness:
  "''img'' \<noteq> []
   \<and> load app_bare env_plain req_get [st_fail_a, st_hit_b] [] ''img'' False
       = (Some blob_b, Some st_hit_b, None)
   \<and> fst (load app_bare env_plain req_get [st_fail_a, st_fail_b] [] ''img'' False) = Some blob_b"
proof -
  have k: "''img'' \<noteq> []" by simp
  note t = load_first_clean_or_latest_blob[OF k]
  have nc1: "\<forall>y \<in> set [(Some blob_a, Some ErrTimeout)]. \<not> clean y" by (simp add: clean_def)
  have cl: "clean (Some blob_b, None)" by (simp add: clean_def blob_b_nonempty)
  from t[of app_bare env_plain req_get "[st_fail_a, st_hit_b]" "[]", THEN conjunct1, rule_format,
      of "[(Some blob_a, Some ErrTimeout)]" "(Some blob_b, None)" "[]"]
    outcomes_fail_hit nc1 cl
  have one: "load app_bare env_plain req_get [st_fail_a, st_hit_b] [] ''img'' False
       = (Some blob_b, Some st_hit_b, None)" by simp
  have nc2: "\<forall>x \<in> set (outcomes app_bare env_plain req_get [st_fail_a, st_fail_b] [] ''img''). \<not> clean x"
    unfolding outcomes_fail_fail by (simp add: clean_def)
  from t[of app_bare env_plain req_get "[st_fail_a, st_fail_b]" "[]", THEN conjunct2, THEN mp, OF nc2]
  have two: "fst (load app_bare env_plain req_get [st_fail_a, st_fail_b] [] ''img'' False) = Some blob_b"
    unfolding outcomes_fail_fail by (simp add: last_nonempty_def blob_a_nonempty blob_b_nonempty)
  from k one two show ?thesis by simp
qed

lemma load_fail_fail:
  "load app_bare env_plain req_get [st_fail_a, st_fail_b] [] ''img'' False
     = (Some blob_b, None, Some ErrInternal)"
  by (simp add: load_def Let_def app_bare_def env_plain_def st_fail_a_def st_fail_b_def
      storage_const_def isBlobEmpty_def blob_a_def blob_b_def)

lemma blob_b_neq_a: "Some blob_b \<noteq> Some blob_a"
  by (simp add: blob_a_def blob_b_def)

text \<open>
  Claim C1 as stated fails: two storages both return a non-empty blob with an error;
  the first non-empty blob seen is \<open>blob_a\<close>, and \<open>load\<close> returns \<open>blob_b\<close>.
\<close>

theorem load_keeps_first_blob_counterexample:
  "outcomes app_bare env_plain req_get [st_fail_a, st_fail_b] [] ''img''
     = [(Some blob_a, Some ErrTimeout), (Some blob_b, Some ErrInternal)]
   \<and> \<not> isBlobEmpty (Some blob_a)
   \<and> load app_bare env_plain req_get [st_fail_a, st_fail_b] [] ''img'' False
       = (Some blob_b, None, Some ErrInternal)
   \<and> Some blob_b \<noteq> Some blob_a"
  using outcomes_fail_fail blob_a_nonempty load_fail_fail blob_b_neq_a by (intro conjI)

lemma last_error_nonempty: "outs \<noteq> [] \<Longrightarrow> last_error outs = snd (last outs)"
  by (simp add: last_error_def)

text \<open>
  In bytes mode with a non-empty key, when every handler returns an empty blob, \<open>load\<close>
  returns no blob and the error of the last handler consulted, whether that error is
  \<open>ErrPass\<close> or not: an earlier non-pass error is overwritten by a later \<open>ErrPass\<close>.
  Only a nil last error (or no handler at all) is replaced, by \<open>ErrNotFound\<close>.
\<close>

lemma load_all_empty_last_error_wins:
  assumes key: "key \<noteq> []"
    and empty: "\<forall>x \<in> set (outcomes app ev r ss ls key). isBlobEmpty (fst x)"
  shows "load app ev r ss ls key False =
           (None, None,
            if last_error (outcomes app ev r ss ls key) = None then Some ErrNotFound
            else last_error (outcomes app ev r ss ls key))"
proof -
  from empty have nc: "\<forall>x \<in> set (outcomes app ev r ss ls key). \<not> clean x"
    by (simp add: empty_not_clean)
  from empty have ln: "last_nonempty (outcomes app ev r ss ls key) = None"
    by (simp add: last_nonempty_None_iff)
  show ?thesis unfolding load_bytes_no_clean[OF key nc] ln by simp
qed

lemma outcomes_timeout_pass:
  "outcomes app_bare env_plain req_get []
     [loader_const (None, Some ErrTimeout), loader_const (None, Some ErrPass)] ''img''
   = [(None, Some ErrTimeout), (None, Some ErrPass)]"
  by (simp add: outcomes_def env_plain_def loader_const_def)

lemma load_timeout_pass:
  "load app_bare env_plain req_get []
     [loader_const (None, Some ErrTimeout), loader_const (None, Some ErrPass)] ''img'' False
   = (None, None, Some ErrPass)"
  by (simp add: load_def Let_def app_bare_def env_plain_def loader_const_def isBlobEmpty_def)


lemma Do_timeout_pass:
  "fst (Do app_timeout_pass env_plain req_get params_img) = (None, Some ErrPass)"
  by (simp add: Do_def Do_fn_def Let_def sign_mismatch_def normalize_def resultKey_of_def
      loadResult_def load_def suppress_def suppress_calls.simps loadStorage_def loadStorage_fn_def
      holds_def WithValue_def WithContext_def
      app_timeout_pass_def app_bare_def env_plain_def req_get_def params_img_def ctx_live_def
      loader_const_def isBlobEmpty_def TrimPrefix_def is_err_def)

lemma load_meta_error_source:
  "load_meta ctx ss key err = Inl (b, org, e) \<Longrightarrow>
     e = err \<or> (\<exists>s \<in> set ss. snd (storage_Meta s ctx key) = e)"
  "load_meta ctx ss key err = Inr e \<Longrightarrow>
     e = err \<or> (\<exists>s \<in> set ss. snd (storage_Meta s ctx key) = e)"
proof (induction ss arbitrary: err)
  case Nil
  { case 1 then show ?case by simp }
  { case 2 then show ?case by simp }
next
  case (Cons s ss)
  obtain m e' where me: "storage_Meta s ctx key = (m, e')" by (cases "storage_Meta s ctx key")
  { case 1
    show ?case
    proof (cases "e' = None \<and> m \<noteq> None")
      case True
      with 1 me show ?thesis by simp
    next
      case False
      with 1 me have "load_meta ctx ss key e' = Inl (b, org, e)" by auto
      from Cons.IH(1)[OF this] me show ?thesis by auto
    qed }
  { case 2
    show ?case
    proof (cases "e' = None \<and> m \<noteq> None")
      case True
      with 2 me show ?thesis by simp
    next
      case False
      with 2 me have "load_meta ctx ss key e' = Inr e" by auto
      from Cons.IH(2)[OF this] me show ?thesis by auto
    qed }
qed

lemma load_meta_unfold:
  "key \<noteq> [] \<Longrightarrow>
   load app ev r0 ss ls key True =
     (case load_meta (req_ctx (load_request app r0)) ss key None of
        Inl ret \<Rightarrow> ret
      | Inr err \<Rightarrow> (None, None, err))"
  unfolding load_def Let_def by (simp add: load_request_def WithContext_def)

lemma load_meta_ErrNotFound:
  assumes key: "key \<noteq> []"
    and nf: "snd (snd (load app ev r ss ls key True)) = Some ErrNotFound"
  shows "\<exists>s \<in> set ss. snd (storage_Meta s (req_ctx (load_request app r)) key) = Some ErrNotFound"
proof (cases "load_meta (req_ctx (load_request app r)) ss key None")
  case (Inl ret)
  obtain b org e where ret: "ret = (b, org, e)" by (cases ret)
  with Inl nf key have "e = Some ErrNotFound" by (simp add: load_meta_unfold)
  with load_meta_error_source(1)[of "req_ctx (load_request app r)" ss key None b org e] Inl ret
  show ?thesis by simp
next
  case (Inr e)
  with nf key have "e = Some ErrNotFound" by (simp add: load_meta_unfold)
  with load_meta_error_source(2)[of "req_ctx (load_request app r)" ss key None e] Inr
  show ?thesis by simp
qed

lemma load_bytes_error_clean:
  assumes key: "key \<noteq> []" and ex: "\<exists>x \<in> set (outcomes app ev r ss ls key). clean x"
  shows "snd (snd (load app ev r ss ls key False)) = None"
proof -
  from ex obtain pre x post where "outcomes app ev r ss ls key = pre @ x # post"
    and "\<forall>y \<in> set pre. \<not> clean y" and "clean x"
    by (rule first_clean_split)
  from load_bytes_first_clean[OF key this] show ?thesis by simp
qed

text \<open>
  Claim C8, as the code has it. \<open>load\<close> returns \<open>ErrNotFound\<close> at once for the empty key,
  in either mode. For a non-empty key in bytes mode it returns \<open>ErrNotFound\<close> exactly
  when no handler gave a clean result and either no error was collected and no
  non-empty blob was seen, or the last handler consulted itself returned \<open>ErrNotFound\<close>;
  in particular with no storage and no loader. In meta mode with a non-empty key an
  \<open>ErrNotFound\<close> can only come from a storage.
\<close>

theorem load_ErrNotFound_cases:
  "(key = [] \<longrightarrow> load app ev r ss ls key metaMode = (None, None, Some ErrNotFound))
   \<and> (key \<noteq> [] \<longrightarrow>
        (snd (snd (load app ev r ss ls key False)) = Some ErrNotFound \<longleftrightarrow>
           (\<forall>x \<in> set (outcomes app ev r ss ls key). \<not> clean x) \<and>
           ((last_error (outcomes app ev r ss ls key) = None
             \<and> (\<forall>x \<in> set (outcomes app ev r ss ls key). isBlobEmpty (fst x)))
            \<or> last_error (outcomes app ev r ss ls key) = Some ErrNotFound)))
   \<and> (key \<noteq> [] \<longrightarrow> load app ev r [] [] key False = (None, None, Some ErrNotFound))
   \<and> (key \<noteq> [] \<and> snd (snd (load app ev r ss ls key True)) = Some ErrNotFound \<longrightarrow>
        (\<exists>s \<in> set ss. snd (storage_Meta s (req_ctx (load_request app r)) key) = Some ErrNotFound))"
proof (intro conjI impI)
  assume "key = []"
  then show "load app ev r ss ls key metaMode = (None, None, Some ErrNotFound)"
    by (simp add: load_def)
next
  assume key: "key \<noteq> []"
  let ?outs = "outcomes app ev r ss ls key"
  show "snd (snd (load app ev r ss ls key False)) = Some ErrNotFound \<longleftrightarrow>
           (\<forall>x \<in> set ?outs. \<not> clean x) \<and>
           ((last_error ?outs = None \<and> (\<forall>x \<in> set ?outs. isBlobEmpty (fst x)))
            \<or> last_error ?outs = Some ErrNotFound)"
  proof (cases "\<exists>x \<in> set ?outs. clean x")
    case True
    with load_bytes_error_clean[OF key True] show ?thesis by auto
  next
    case False
    then have nc: "\<forall>x \<in> set ?outs. \<not> clean x" by simp
    show ?thesis
      unfolding load_bytes_no_clean[OF key nc] last_nonempty_None_iff[symmetric]
      using nc by auto
  qed
next
  assume key: "key \<noteq> []"
  have nc: "\<forall>x \<in> set (outcomes app ev r [] [] key). \<not> clean x" by (simp add: outcomes_def)
  show "load app ev r [] [] key False = (None, None, Some ErrNotFound)"
    unfolding load_bytes_no_clean[OF key nc]
    by (simp add: outcomes_def last_nonempty_def last_error_def)
next
  assume "key \<noteq> [] \<and> snd (snd (load app ev r ss ls key True)) = Some ErrNotFound"
  then show "\<exists>s \<in> set ss. snd (storage_Meta s (req_ctx (load_request app r)) key) = Some ErrNotFound"
    using load_meta_ErrNotFound by blast
qed


lemma outcomes_notfound:
  "outcomes app_bare env_plain req_get [st_notfound] [] ''img'' = [(None, Some ErrNotFound)]"
  by (simp add: outcomes_def env_plain_def st_notfound_def storage_const_def)

lemma load_notfound:
  "load app_bare env_plain req_get [st_notfound] [] ''img'' False = (None, None, Some ErrNotFound)"
  by (simp add: load_def Let_def app_bare_def env_plain_def st_notfound_def storage_const_def
      isBlobEmpty_def)

text \<open>
  The theorem at the empty key, at empty handler lists, and at a storage that itself
  answers \<open>ErrNotFound\<close>.
\<close>

theorem load_ErrNotFound_cases_witness:
  "load app_bare env_plain req_get [st_notfound] [] [] False = (None, None, Some ErrNotFound)
   \<and> ''img'' \<noteq> []
   \<and> load app_bare env_plain req_get [] [] ''img'' False = (None, None, Some ErrNotFound)
   \<and> outcomes app_bare env_plain req_get [st_notfound] [] ''img'' = [(None, Some ErrNotFound)]
   \<and> \<not> clean (None, Some ErrNotFound)
   \<and> last_error [(None, Some ErrNotFound)] = Some ErrNotFound
   \<and> snd (snd (load app_bare env_plain req_get [st_notfound] [] ''img'' False)) = Some ErrNotFound
   \<and> snd (snd (load app_bare env_plain req_get [st_notfound] [] ''img'' True)) = Some ErrNotFound
   \<and> snd (storage_Meta st_notfound (req_ctx (load_request app_bare req_get)) ''img'')
       = Some ErrNotFound"
proof -
  have nc': "\<not> clean (None, Some ErrNotFound)" by (simp add: clean_def isBlobEmpty_def)
  have k: "''img'' \<noteq> []" by simp
  note t = load_ErrNotFound_cases[of "[]" app_bare env_plain req_get "[st_notfound]" "[]" False]
  note u = load_ErrNotFound_cases[of "''img''" app_bare env_plain req_get "[st_notfound]" "[]" False]
  from t have a: "load app_bare env_plain req_get [st_notfound] [] [] False = (None, None, Some ErrNotFound)"
    by simp
  from u k have b: "load app_bare env_plain req_get [] [] ''img'' False = (None, None, Some ErrNotFound)"
    by simp
  have nc: "\<forall>x \<in> set [(None, Some ErrNotFound)]. \<not> clean x" by (simp add: clean_def isBlobEmpty_def)
  have le: "last_error [(None, Some ErrNotFound)] = Some ErrNotFound" by (simp add: last_error_def)
  from u k nc le have c: "snd (snd (load app_bare env_plain req_get [st_notfound] [] ''img'' False)) = Some ErrNotFound"
    unfolding outcomes_notfound by simp
  have m: "snd (snd (load app_bare env_plain req_get [st_notfound] [] ''img'' True)) = Some ErrNotFound"
    by (simp add: load_def Let_def app_bare_def st_notfound_def storage_const_def)
  from u k m have "\<exists>s \<in> set [st_notfound].
         snd (storage_Meta s (req_ctx (load_request app_bare req_get)) ''img'') = Some ErrNotFound"
    by blast
  then have d: "snd (storage_Meta st_notfound (req_ctx (load_request app_bare req_get)) ''img'')
       = Some ErrNotFound" by simp
  from a k b outcomes_notfound nc' le c m d show ?thesis by (intro conjI)
qed

text \<open>
  Claim C8 as stated fails: the key is not empty and an error was collected, and
  \<open>load\<close> returns \<open>ErrNotFound\<close> all the same, relayed from the storage.
\<close>

theorem load_ErrNotFound_only_own_counterexample:
  "''img'' \<noteq> []
   \<and> outcomes app_bare env_plain req_get [st_notfound] [] ''img'' = [(None, Some ErrNotFound)]
   \<and> last_error [(None, Some ErrNotFound)] \<noteq> None
   \<and> load app_bare env_plain req_get [st_notfound] [] ''img'' False = (None, None, Some ErrNotFound)"
  using outcomes_notfound load_notfound by (simp add: last_error_def)

text \<open>
  Claim C10, as the code has it. In bytes mode with a non-empty key, the error \<open>load\<close>
  returns is the error of the last handler consulted (nil at the first clean result,
  the error of the last handler when there is none), except that a nil error together
  with no non-empty blob becomes \<open>ErrNotFound\<close>. So when the last handler returns an
  empty blob and a nil error after an earlier handler returned a non-empty blob with
  an error, \<open>load\<close> returns that blob with a nil error and no origin.
\<close>

theorem load_error_of_last_consulted:
  assumes key: "key \<noteq> []"
  shows "(\<forall>pre x post.
            outcomes app ev r ss ls key = pre @ x # post \<and> (\<forall>y \<in> set pre. \<not> clean y) \<and> clean x \<longrightarrow>
            snd (snd (load app ev r ss ls key False)) = snd x)
       \<and> ((\<forall>x \<in> set (outcomes app ev r ss ls key). \<not> clean x) \<and> outcomes app ev r ss ls key \<noteq> [] \<longrightarrow>
            snd (snd (load app ev r ss ls key False)) =
              (if snd (last (outcomes app ev r ss ls key)) = None
                  \<and> (\<forall>x \<in> set (outcomes app ev r ss ls key). isBlobEmpty (fst x))
               then Some ErrNotFound else snd (last (outcomes app ev r ss ls key))))
       \<and> ((\<forall>x \<in> set (outcomes app ev r ss ls key). \<not> clean x) \<and> outcomes app ev r ss ls key \<noteq> []
           \<and> snd (last (outcomes app ev r ss ls key)) = None
           \<and> (\<exists>x \<in> set (outcomes app ev r ss ls key). \<not> isBlobEmpty (fst x)) \<longrightarrow>
            load app ev r ss ls key False = (last_nonempty (outcomes app ev r ss ls key), None, None)
            \<and> \<not> isBlobEmpty (last_nonempty (outcomes app ev r ss ls key)))"
proof (intro conjI allI impI)
  fix pre x post
  assume h: "outcomes app ev r ss ls key = pre @ x # post \<and> (\<forall>y \<in> set pre. \<not> clean y) \<and> clean x"
  then have a: "outcomes app ev r ss ls key = pre @ x # post" and b: "\<forall>y \<in> set pre. \<not> clean y"
    and c: "clean x" by simp_all
  from c have "snd x = None" by (simp add: clean_def)
  then show "snd (snd (load app ev r ss ls key False)) = snd x"
    unfolding load_bytes_first_clean[OF key a b c] by simp
next
  let ?outs = "outcomes app ev r ss ls key"
  assume h: "(\<forall>x \<in> set ?outs. \<not> clean x) \<and> ?outs \<noteq> []"
  then have nc: "\<forall>x \<in> set ?outs. \<not> clean x" and ne: "?outs \<noteq> []" by simp_all
  show "snd (snd (load app ev r ss ls key False)) =
          (if snd (last ?outs) = None \<and> (\<forall>x \<in> set ?outs. isBlobEmpty (fst x))
           then Some ErrNotFound else snd (last ?outs))"
    unfolding load_bytes_no_clean[OF key nc] last_nonempty_None_iff last_error_nonempty[OF ne]
    by simp
next
  let ?outs = "outcomes app ev r ss ls key"
  assume h: "(\<forall>x \<in> set ?outs. \<not> clean x) \<and> ?outs \<noteq> [] \<and> snd (last ?outs) = None
             \<and> (\<exists>x \<in> set ?outs. \<not> isBlobEmpty (fst x))"
  then have nc: "\<forall>x \<in> set ?outs. \<not> clean x" and ne: "?outs \<noteq> []"
    and le: "snd (last ?outs) = None" and ex: "\<exists>x \<in> set ?outs. \<not> isBlobEmpty (fst x)" by simp_all
  from ex have ln: "last_nonempty ?outs \<noteq> None" unfolding last_nonempty_None_iff by simp
  show "load app ev r ss ls key False = (last_nonempty ?outs, None, None)"
    unfolding load_bytes_no_clean[OF key nc] last_error_nonempty[OF ne] using le ln by simp
  show "\<not> isBlobEmpty (last_nonempty ?outs)"
    using ln unfolding last_nonempty_empty_iff by simp
qed

lemma outcomes_fail_nil:
  "outcomes app_bare env_plain req_get [st_fail_a, st_nil] [] ''img''
     = [(Some blob_a, Some ErrTimeout), (None, None)]"
  by (simp add: outcomes_def env_plain_def st_fail_a_def st_nil_def storage_const_def)

text \<open>
  The theorem at a failing storage with a blob followed by a storage that returns
  nothing and no error, and at a failing storage followed by a clean hit.
\<close>

theorem load_error_of_last_consulted_witness:
  "''img'' \<noteq> []
   \<and> outcomes app_bare env_plain req_get [st_fail_a, st_nil] [] ''img''
       = [(Some blob_a, Some ErrTimeout), (None, None)]
   \<and> \<not> clean (Some blob_a, Some ErrTimeout) \<and> \<not> clean (None, None)
   \<and> \<not> isBlobEmpty (Some blob_a)
   \<and> load app_bare env_plain req_get [st_fail_a, st_nil] [] ''img'' False = (Some blob_a, None, None)
   \<and> snd (snd (load app_bare env_plain req_get [st_fail_a, st_hit_b] [] ''img'' False)) = None"
proof -
  have k: "''img'' \<noteq> []" by simp
  note t = load_error_of_last_consulted[OF k, of app_bare env_plain req_get]
  have nc: "\<forall>x \<in> set [(Some blob_a, Some ErrTimeout), (None, None)]. \<not> clean x"
    by (simp add: clean_def isBlobEmpty_def)
  have le: "snd (last [(Some blob_a, Some ErrTimeout), (None :: blob option, None :: error option)]) = None"
    by simp
  have ex: "\<exists>x \<in> set [(Some blob_a, Some ErrTimeout), (None, None)]. \<not> isBlobEmpty (fst x)"
    by (simp add: blob_a_nonempty)
  have ln: "last_nonempty [(Some blob_a, Some ErrTimeout), (None, None)] = Some blob_a"
    using blob_a_nonempty by (simp add: last_nonempty_def isBlobEmpty_def)
  from t[of "[st_fail_a, st_nil]" "[]", THEN conjunct2, THEN conjunct2] nc le ex
  have one: "load app_bare env_plain req_get [st_fail_a, st_nil] [] ''img'' False = (Some blob_a, None, None)"
    unfolding outcomes_fail_nil ln by simp
  have nc1: "\<forall>y \<in> set [(Some blob_a, Some ErrTimeout)]. \<not> clean y" by (simp add: clean_def)
  have cl: "clean (Some blob_b, None)" by (simp add: clean_def blob_b_nonempty)
  from t[of "[st_fail_a, st_hit_b]" "[]", THEN conjunct1, rule_format,
      of "[(Some blob_a, Some ErrTimeout)]" "(Some blob_b, None)" "[]"] outcomes_fail_hit nc1 cl
  have two: "snd (snd (load app_bare env_plain req_get [st_fail_a, st_hit_b] [] ''img'' False)) = None"
    by simp
  have c1: "\<not> clean (Some blob_a, Some ErrTimeout)" and c2: "\<not> clean (None, None)"
    by (simp_all add: clean_def isBlobEmpty_def)
  from k outcomes_fail_nil c1 c2 blob_a_nonempty one two show ?thesis by (intro conjI)
qed

lemma outcomes_nil_loader:
  "outcomes app_bare env_plain req_get [] [loader_const (None, None)] ''img'' = [(None, None)]"
  by (simp add: outcomes_def env_plain_def loader_const_def)

lemma load_nil_loader:
  "load app_bare env_plain req_get [] [loader_const (None, None)] ''img'' False
     = (None, None, Some ErrNotFound)"
  by (simp add: load_def Let_def app_bare_def env_plain_def loader_const_def isBlobEmpty_def)

text \<open>
  Claim C10 as stated fails: the only loader returns no blob and a nil error, and
  \<open>load\<close> returns \<open>ErrNotFound\<close>, which is not that loader's error.
\<close>

theorem load_error_not_of_last_handler_counterexample:
  "outcomes app_bare env_plain req_get [] [loader_const (None, None)] ''img'' = [(None, None)]
   \<and> load app_bare env_plain req_get [] [loader_const (None, None)] ''img'' False
       = (None, None, Some ErrNotFound)
   \<and> Some ErrNotFound \<noteq> snd (None :: blob option, None :: error option)"
  using outcomes_nil_loader load_nil_loader by simp

section \<open>Properties of the processor chain\<close>

text \<open>
  Claim C2. The chain takes the processors in order. With no processor left it returns
  the current blob and error. A processor that returns a nil error ends the chain: its
  blob is the result and the error is nil. \<open>ErrPass\<close> with a non-empty blob makes that
  blob the current one and the chain goes on; \<open>ErrPass\<close> with an empty blob leaves the
  current blob and the chain goes on. Any other error is recorded and the chain goes
  on, unless the error is a deadline-exceeded one: then the chain stops with that
  error, whatever error was recorded before.
\<close>

theorem process_chain_protocol:
  "process_chain ev ctx p [] blob err = (blob, err)
   \<and> (checkBlob ev (processor ctx blob p) = (b, None) \<longrightarrow>
        process_chain ev ctx p (processor # rest) blob err = (b, None))
   \<and> (checkBlob ev (processor ctx blob p) = (b, Some ErrPass) \<and> \<not> isBlobEmpty b \<longrightarrow>
        process_chain ev ctx p (processor # rest) blob err = process_chain ev ctx p rest b err)
   \<and> (checkBlob ev (processor ctx blob p) = (b, Some ErrPass) \<and> isBlobEmpty b \<longrightarrow>
        process_chain ev ctx p (processor # rest) blob err = process_chain ev ctx p rest blob err)
   \<and> (checkBlob ev (processor ctx blob p) = (b, Some e) \<and> e \<noteq> ErrPass
        \<and> errors_Is e ContextDeadlineExceeded \<longrightarrow>
        process_chain ev ctx p (processor # rest) blob err = (blob, Some e))
   \<and> (checkBlob ev (processor ctx blob p) = (b, Some e) \<and> e \<noteq> ErrPass
        \<and> \<not> errors_Is e ContextDeadlineExceeded \<longrightarrow>
        process_chain ev ctx p (processor # rest) blob err = process_chain ev ctx p rest blob (Some e))"
  by (simp add: is_err_def)


text \<open>
  The theorem on a blob \<open>blob_a\<close>: a success, a pass with a new blob, a pass without
  one, a deadline after a recorded error, and a recorded error that survives a pass.
\<close>

theorem process_chain_protocol_witness:
  "process_chain env_plain ctx_live params_img
      [processor_const (Some blob_b, None), processor_const (None, Some ErrInternal)]
      (Some blob_a) None = (Some blob_b, None)
   \<and> process_chain env_plain ctx_live params_img
      [processor_const (Some blob_b, Some ErrPass), processor_echo] (Some blob_a) None
      = (Some blob_b, None)
   \<and> process_chain env_plain ctx_live params_img
      [processor_const (None, Some ErrPass), processor_echo] (Some blob_a) None
      = (Some blob_a, None)
   \<and> process_chain env_plain ctx_live params_img
      [processor_const (None, Some ErrInternal), processor_const (None, Some deadline_error),
       processor_echo] (Some blob_a) None
      = (Some blob_a, Some deadline_error)
   \<and> process_chain env_plain ctx_live params_img
      [processor_const (None, Some ErrInternal), processor_const (None, Some ErrPass)]
      (Some blob_a) None
      = (Some blob_a, Some ErrInternal)"
proof -
  let ?chain = "process_chain env_plain ctx_live params_img"
  have chk: "\<And>x. checkBlob env_plain x = x" by (simp add: env_plain_def)
  have echo: "\<And>blob err. ?chain [processor_echo] blob err = (blob, None)"
    by (simp add: chk processor_echo_def)
  have ok: "checkBlob env_plain (processor_const (Some blob_b, None) ctx_live (Some blob_a) params_img)
              = (Some blob_b, None)"
    by (simp add: chk processor_const_def)
  from process_chain_protocol[of env_plain ctx_live params_img "Some blob_a" None
      "processor_const (Some blob_b, None)" "Some blob_b", THEN conjunct2, THEN conjunct1, THEN mp, OF ok]
  have one: "?chain [processor_const (Some blob_b, None), processor_const (None, Some ErrInternal)]
      (Some blob_a) None = (Some blob_b, None)" .
  have pass_b: "checkBlob env_plain (processor_const (Some blob_b, Some ErrPass) ctx_live (Some blob_a) params_img)
              = (Some blob_b, Some ErrPass) \<and> \<not> isBlobEmpty (Some blob_b)"
    by (simp add: chk processor_const_def blob_b_nonempty)
  from process_chain_protocol[of env_plain ctx_live params_img "Some blob_a" None
      "processor_const (Some blob_b, Some ErrPass)" "Some blob_b" "[processor_echo]",
      THEN conjunct2, THEN conjunct2, THEN conjunct1, THEN mp, OF pass_b]
  have two: "?chain [processor_const (Some blob_b, Some ErrPass), processor_echo] (Some blob_a) None
      = (Some blob_b, None)" by (simp only: echo)
  have pass_nil: "checkBlob env_plain (processor_const (None, Some ErrPass) ctx_live (Some blob_a) params_img)
              = (None, Some ErrPass) \<and> isBlobEmpty None"
    by (simp add: chk processor_const_def isBlobEmpty_def)
  from process_chain_protocol[of env_plain ctx_live params_img "Some blob_a" None
      "processor_const (None, Some ErrPass)" None "[processor_echo]",
      THEN conjunct2, THEN conjunct2, THEN conjunct2, THEN conjunct1, THEN mp, OF pass_nil]
  have three: "?chain [processor_const (None, Some ErrPass), processor_echo] (Some blob_a) None
      = (Some blob_a, None)" by (simp only: echo)
  have dl: "checkBlob env_plain (processor_const (None, Some deadline_error) ctx_live (Some blob_a) params_img)
              = (None, Some deadline_error) \<and> deadline_error \<noteq> ErrPass
                \<and> errors_Is deadline_error ContextDeadlineExceeded"
    by (simp add: chk processor_const_def deadline_error_def)
  from process_chain_protocol[of env_plain ctx_live params_img "Some blob_a" "Some ErrInternal"
      "processor_const (None, Some deadline_error)" None "[processor_echo]" deadline_error,
      THEN conjunct2, THEN conjunct2, THEN conjunct2, THEN conjunct2, THEN conjunct1, THEN mp, OF dl]
  have four': "?chain [processor_const (None, Some deadline_error), processor_echo] (Some blob_a)
      (Some ErrInternal) = (Some blob_a, Some deadline_error)" .
  have fail: "checkBlob env_plain (processor_const (None, Some ErrInternal) ctx_live (Some blob_a) params_img)
              = (None, Some ErrInternal) \<and> ErrInternal \<noteq> ErrPass
                \<and> \<not> errors_Is ErrInternal ContextDeadlineExceeded"
    by (simp add: chk processor_const_def)
  from process_chain_protocol[of env_plain ctx_live params_img "Some blob_a" None
      "processor_const (None, Some ErrInternal)" None _ ErrInternal,
      THEN conjunct2, THEN conjunct2, THEN conjunct2, THEN conjunct2, THEN conjunct2, THEN mp, OF fail]
  have step: "\<And>rest. ?chain (processor_const (None, Some ErrInternal) # rest) (Some blob_a) None
      = ?chain rest (Some blob_a) (Some ErrInternal)" .
  have four: "?chain [processor_const (None, Some ErrInternal), processor_const (None, Some deadline_error),
       processor_echo] (Some blob_a) None = (Some blob_a, Some deadline_error)"
    by (simp only: step four')
  have five: "?chain [processor_const (None, Some ErrInternal), processor_const (None, Some ErrPass)]
      (Some blob_a) None = (Some blob_a, Some ErrInternal)"
    unfolding step by (simp add: chk processor_const_def isBlobEmpty_def)
  from one two three four five show ?thesis by (intro conjI)
qed

section \<open>Properties of the result cache probe\<close>

lemma stat_time_ok:
  "storage_Stat a ctx key = (st, err) \<Longrightarrow>
   (stat_time a ctx key \<noteq> None) = (st \<noteq> None \<and> err = None)"
  by (cases st; cases err; simp add: stat_time_def)

lemma storageStat_loop_found:
  "find (\<lambda>s. stat_time s ctx key \<noteq> None) ss = Some s \<Longrightarrow>
   storageStat_loop ctx ss key prev = storage_Stat s ctx key"
proof (induction ss arbitrary: prev)
  case Nil
  then show ?case by simp
next
  case (Cons a ss)
  obtain st err where st: "storage_Stat a ctx key = (st, err)" by (cases "storage_Stat a ctx key")
  show ?case
  proof (cases "stat_time a ctx key \<noteq> None")
    case True
    with Cons.prems have "a = s" by simp
    with True st show ?thesis by (auto simp: stat_time_def split: option.splits)
  next
    case False
    with Cons.prems have f: "find (\<lambda>s. stat_time s ctx key \<noteq> None) ss = Some s" by simp
    from False stat_time_ok[OF st] have "\<not> (st \<noteq> None \<and> err = None)" by simp
    with st Cons.IH[OF f] show ?thesis by auto
  qed
qed

lemma storageStat_loop_none:
  "find (\<lambda>s. stat_time s ctx key \<noteq> None) ss = None \<Longrightarrow>
   \<not> (fst prev \<noteq> None \<and> snd prev = None) \<Longrightarrow>
   \<not> (fst (storageStat_loop ctx ss key prev) \<noteq> None \<and> snd (storageStat_loop ctx ss key prev) = None)"
proof (induction ss arbitrary: prev)
  case Nil
  then show ?case by simp
next
  case (Cons a ss)
  obtain st err where st: "storage_Stat a ctx key = (st, err)" by (cases "storage_Stat a ctx key")
  from Cons.prems(1) have no: "stat_time a ctx key = None"
    and f: "find (\<lambda>s. stat_time s ctx key \<noteq> None) ss = None"
    by (simp_all split: if_splits)
  from no stat_time_ok[OF st] have bad: "\<not> (st \<noteq> None \<and> err = None)" by simp
  then have "\<not> (fst (st, err) \<noteq> None \<and> snd (st, err) = None)" by simp
  from Cons.IH[OF f this] st bad show ?case by auto
qed

text \<open>What \<open>loadResult\<close> tests of \<open>storageStat\<close>, by the source's modified time.\<close>

lemma storageStat_source_time:
  "(case storageStat app ctx key of (Some st, None) \<Rightarrow> Some (ModifiedTime st) | _ \<Rightarrow> None)
   = source_time app ctx key"
proof (cases "find (\<lambda>s. stat_time s ctx key \<noteq> None) (Storages app)")
  case None
  have "\<not> (fst (storageStat app ctx key) \<noteq> None \<and> snd (storageStat app ctx key) = None)"
    unfolding storageStat_def by (rule storageStat_loop_none[OF None]) simp
  then have "(case storageStat app ctx key of (Some st, None) \<Rightarrow> Some (ModifiedTime st) | _ \<Rightarrow> None) = None"
    by (cases "storageStat app ctx key") (auto split: option.splits)
  with None show ?thesis by (simp add: source_time_def)
next
  case (Some s)
  then have "storageStat app ctx key = storage_Stat s ctx key"
    unfolding storageStat_def by (rule storageStat_loop_found)
  with Some show ?thesis by (simp add: source_time_def stat_time_def)
qed

lemma load_storages_Inl_nonempty:
  "load_storages ev r ss key blob err = Inl (b, org, e) \<Longrightarrow> \<not> isBlobEmpty b"
proof (induction ss arbitrary: blob err)
  case Nil
  then show ?case by simp
next
  case (Cons s ss)
  obtain b' e' where be: "checkBlob ev (storage_Get s r key) = (b', e')"
    by (cases "checkBlob ev (storage_Get s r key)")
  show ?case
  proof (cases "\<not> isBlobEmpty b' \<and> e' = None")
    case True
    with Cons.prems be show ?thesis by auto
  next
    case False
    with Cons.prems be have "load_storages ev r ss key (if isBlobEmpty b' then blob else b') e' = Inl (b, org, e)"
      by (auto split: if_splits)
    then show ?thesis by (rule Cons.IH)
  qed
qed

lemma load_loaders_Inl_origin:
  "load_loaders ev r ls key blob err = Inl (b, org, e) \<Longrightarrow> org = None"
proof (induction ls arbitrary: blob err)
  case Nil
  then show ?case by simp
next
  case (Cons l ls)
  obtain b' e' where be: "checkBlob ev (l r key) = (b', e')" by (cases "checkBlob ev (l r key)")
  show ?case
  proof (cases "\<not> isBlobEmpty b' \<and> e' = None")
    case True
    with Cons.prems be show ?thesis by auto
  next
    case False
    with Cons.prems be have "load_loaders ev r ls key (if isBlobEmpty b' then blob else b') e' = Inl (b, org, e)"
      by (auto split: if_splits)
    then show ?thesis by (rule Cons.IH)
  qed
qed

lemma load_meta_Inl_blob:
  "load_meta ctx ss key err = Inl (b, org, e) \<Longrightarrow> b \<noteq> None"
proof (induction ss arbitrary: err)
  case Nil
  then show ?case by simp
next
  case (Cons s ss)
  obtain m e' where me: "storage_Meta s ctx key = (m, e')" by (cases "storage_Meta s ctx key")
  show ?case
  proof (cases "e' = None \<and> m \<noteq> None")
    case True
    with Cons.prems me show ?thesis by auto
  next
    case False
    with Cons.prems me have "load_meta ctx ss key e' = Inl (b, org, e)" by auto
    then show ?thesis by (rule Cons.IH)
  qed
qed

text \<open>A load that names an origin returns a blob.\<close>

lemma load_origin_blob:
  assumes "load app ev r ss ls key metaMode = (blob, Some org, err)"
  shows "blob \<noteq> None"
proof -
  from assms have key: "key \<noteq> []" by (auto simp: load_def)
  show ?thesis
  proof (cases metaMode)
    case True
    with assms key obtain b o' e where "load_meta (req_ctx (load_request app r)) ss key None = Inl (b, o', e)"
      and "b = blob"
      by (cases "load_meta (req_ctx (load_request app r)) ss key None") (auto simp: load_meta_unfold)
    then show ?thesis using load_meta_Inl_blob by blast
  next
    case False
    show ?thesis
    proof (cases "load_storages ev (load_request app r) ss key None None")
      case (Inl ret)
      obtain b o' e where ret: "ret = (b, o', e)" by (cases ret)
      with Inl assms key False have "b = blob" by (simp add: load_bytes_unfold)
      moreover from Inl ret have "\<not> isBlobEmpty b" using load_storages_Inl_nonempty by blast
      ultimately show ?thesis using nonempty_not_None by blast
    next
      case (Inr res)
      obtain blobS errS where res: "res = (blobS, errS)" by (cases res)
      show ?thesis
      proof (cases "load_loaders ev (load_request app r) ls key blobS errS")
        case (Inl ret)
        obtain b o' e where ret: "ret = (b, o', e)" by (cases ret)
        with Inl have "o' = None" using load_loaders_Inl_origin by blast
        with Inl ret Inr res assms key False show ?thesis by (simp add: load_bytes_unfold)
      next
        case (Inr res')
        with \<open>load_storages ev (load_request app r) ss key None None = Inr res\<close> res assms key False
        show ?thesis by (simp add: load_bytes_unfold split: prod.splits if_splits)
      qed
    qed
  qed
qed

text \<open>
  The hits \<open>load\<close> reports with a nil error (a usable blob and the storage it came
  from). With the modified-time check enabled such a hit is returned exactly when the
  origin's \<open>Stat\<close> of the result key succeeds, some source storage's \<open>Stat\<close> of the image
  key succeeds, and the result's modified time is not before the modified time of the
  first source storage whose \<open>Stat\<close> succeeds; otherwise \<open>loadResult\<close> returns no blob.
  The blob of such a hit is never nil, so the two outcomes differ.
\<close>

lemma loadResult_fresh_iff:
  assumes hit: "load app ev r (ResultStorages app) [] resultKey metaMode = (blob, Some org, None)"
    and usable: "\<not> isBlobEmpty blob \<or> metaMode"
    and check: "ModifiedTimeCheck app"
  shows "loadResult app ev r resultKey imageKey metaMode =
           (case (stat_time org (req_ctx r) resultKey, source_time app (req_ctx r) imageKey) of
              (Some resultTime, Some sourceTime) \<Rightarrow> if sourceTime \<le> resultTime then blob else None
            | _ \<Rightarrow> None)
         \<and> blob \<noteq> None"
proof (rule conjI)
  show "blob \<noteq> None" using hit by (rule load_origin_blob)
next
  have "loadResult app ev r resultKey imageKey metaMode =
          (case storage_Stat org (req_ctx r) resultKey of
             (Some resStat, None) \<Rightarrow>
               (case storageStat app (req_ctx r) imageKey of
                  (Some sourceStat, None) \<Rightarrow>
                     if \<not> Before (ModifiedTime resStat) (ModifiedTime sourceStat) then blob else None
                | _ \<Rightarrow> None)
           | _ \<Rightarrow> None)"
    using hit usable check unfolding loadResult_def Let_def by auto
  also have "\<dots> = (case (stat_time org (req_ctx r) resultKey, source_time app (req_ctx r) imageKey) of
              (Some resultTime, Some sourceTime) \<Rightarrow> if sourceTime \<le> resultTime then blob else None
            | _ \<Rightarrow> None)"
    unfolding storageStat_source_time[symmetric]
    by (cases "storage_Stat org (req_ctx r) resultKey"; cases "storageStat app (req_ctx r) imageKey")
       (auto simp: stat_time_def Before_def split: option.splits)
  finally show "loadResult app ev r resultKey imageKey metaMode =
           (case (stat_time org (req_ctx r) resultKey, source_time app (req_ctx r) imageKey) of
              (Some resultTime, Some sourceTime) \<Rightarrow> if sourceTime \<le> resultTime then blob else None
            | _ \<Rightarrow> None)" .
qed

lemma load_cached:
  "load (app_cached t) env_plain req_get (ResultStorages (app_cached t)) [] ''img'' False
     = (Some blob_b, Some (storage_stat ''res'' (Some blob_b, None) 5), None)"
  by (simp add: load_def Let_def app_cached_def app_bare_def env_plain_def storage_stat_def
      storage_const_def isBlobEmpty_def blob_b_def)

lemma times_cached:
  "stat_time (storage_stat ''res'' (Some blob_b, None) 5) (req_ctx req_get) ''img'' = Some 5"
  "source_time (app_cached t) (req_ctx req_get) ''img'' = Some t"
  by (simp_all add: stat_time_def source_time_def app_cached_def app_bare_def storage_stat_def
      storage_const_def stat_at_def st_notfound_def)

text \<open>
  In bytes mode, at a result written at time 5: with the source modified at time 3 the
  hit is returned, with the source modified at time 7 it is dropped.
\<close>

lemma loadResult_fresh_at_times:
  "load (app_cached 3) env_plain req_get (ResultStorages (app_cached 3)) [] ''img'' False
     = (Some blob_b, Some (storage_stat ''res'' (Some blob_b, None) 5), None)
   \<and> \<not> isBlobEmpty (Some blob_b)
   \<and> ModifiedTimeCheck (app_cached 3)
   \<and> loadResult (app_cached 3) env_plain req_get ''img'' ''img'' False = Some blob_b
   \<and> loadResult (app_cached 7) env_plain req_get ''img'' ''img'' False = None"
proof -
  have u: "\<not> isBlobEmpty (Some blob_b) \<or> False" by (simp add: blob_b_nonempty)
  have c: "\<And>t. ModifiedTimeCheck (app_cached t)" by (simp add: app_cached_def)
  from loadResult_fresh_iff[OF load_cached[of 3] u c, of "''img''"]
  have fresh: "loadResult (app_cached 3) env_plain req_get ''img'' ''img'' False = Some blob_b"
    by (simp add: times_cached)
  from loadResult_fresh_iff[OF load_cached[of 7] u c, of "''img''"]
  have stale: "loadResult (app_cached 7) env_plain req_get ''img'' ''img'' False = None"
    by (simp add: times_cached)
  from load_cached[of 3] blob_b_nonempty c[of 3] fresh stale show ?thesis by (intro conjI)
qed

text \<open>
  Meta mode behind a storage that knows nothing: the loop leaves the first storage's
  error in \<open>err\<close> and the return at the hit does not clear it, as the two returns of
  the bytes mode do.
\<close>

lemma load_meta_two:
  "load app_meta_two env_plain req_get (ResultStorages app_meta_two) [] ''img'' True
     = (Some (NewEmptyBlob\<lparr>blob_meta := Some meta_png\<rparr>), Some st_meta, Some ErrNotFound)"
  by (simp add: load_def Let_def app_meta_two_def app_meta_one_def app_bare_def st_notfound_def
      st_meta_def storage_stat_def storage_const_def)

lemma load_meta_one:
  "load app_meta_one env_plain req_get (ResultStorages app_meta_one) [] ''img'' True
     = (Some (NewEmptyBlob\<lparr>blob_meta := Some meta_png\<rparr>), Some st_meta, None)"
  by (simp add: load_def Let_def app_meta_one_def app_bare_def
      st_meta_def storage_stat_def storage_const_def)

lemma times_meta:
  "stat_time st_meta (req_ctx req_get) ''img'' = Some 5"
  "source_time app_meta_two (req_ctx req_get) ''img'' = Some 3"
  "source_time app_meta_one (req_ctx req_get) ''img'' = Some 3"
  by (simp_all add: stat_time_def source_time_def app_meta_two_def app_meta_one_def app_bare_def
      st_meta_def storage_stat_def storage_const_def stat_at_def)

lemma loadResult_meta_two:
  "loadResult app_meta_two env_plain req_get ''img'' ''img'' True = None"
  by (simp add: loadResult_def load_meta_two)

lemma loadResult_meta_one:
  "loadResult app_meta_one env_plain req_get ''img'' ''img'' True
     = Some (NewEmptyBlob\<lparr>blob_meta := Some meta_png\<rparr>)"
proof -
  have c: "ModifiedTimeCheck app_meta_one" by (simp add: app_meta_one_def)
  have u: "\<not> isBlobEmpty (Some (NewEmptyBlob\<lparr>blob_meta := Some meta_png\<rparr>)) \<or> True" by simp
  from loadResult_fresh_iff[OF load_meta_one u c, of "''img''"] show ?thesis
    by (simp add: times_meta)
qed

text \<open>
  Claim C7. A result cache hit with the modified-time check enabled and a known origin
  is to be accepted exactly when the result's modified time is not before the source's.
  In meta mode \<open>load\<close> returns the hit of a later result storage together with the
  error an earlier result storage left behind, and \<open>loadResult\<close> drops every hit that
  comes with an error before it compares any time. Here the first result storage has no
  meta for the key and the second has: the hit comes back with that storage as origin
  and \<open>ErrNotFound\<close>; the result was written at time 5 and the source modified at time
  3, yet \<open>loadResult\<close> returns no blob. With the second storage alone the same hit is
  accepted.
\<close>

theorem loadResult_meta_hit_dropped:
  "load app_meta_two env_plain req_get (ResultStorages app_meta_two) [] ''img'' True
     = (Some (NewEmptyBlob\<lparr>blob_meta := Some meta_png\<rparr>), Some st_meta, Some ErrNotFound)
   \<and> ModifiedTimeCheck app_meta_two
   \<and> stat_time st_meta (req_ctx req_get) ''img'' = Some 5
   \<and> source_time app_meta_two (req_ctx req_get) ''img'' = Some 3
   \<and> loadResult app_meta_two env_plain req_get ''img'' ''img'' True = None
   \<and> loadResult app_meta_one env_plain req_get ''img'' ''img'' True
       = Some (NewEmptyBlob\<lparr>blob_meta := Some meta_png\<rparr>)"
proof -
  have c: "ModifiedTimeCheck app_meta_two" by (simp add: app_meta_two_def app_meta_one_def)
  from load_meta_two c times_meta(1) times_meta(2) loadResult_meta_two loadResult_meta_one
  show ?thesis by (intro conjI)
qed

text \<open>
  The theorem read at its input: the result is not older than the source, and the probe
  returns no blob.
\<close>

theorem loadResult_meta_hit_dropped_witness:
  "stat_time st_meta (req_ctx req_get) ''img'' = Some 5
   \<and> source_time app_meta_two (req_ctx req_get) ''img'' = Some 3
   \<and> (3::int) \<le> 5
   \<and> loadResult app_meta_two env_plain req_get ''img'' ''img'' True = None"
  using loadResult_meta_hit_dropped by simp

section \<open>Properties of the singleflight wrapper\<close>

text \<open>
  Without the marker every call goes through the group: its trace starts with the
  \<open>DoChan\<close> on the key.
\<close>

lemma suppress_calls_DoChan:
  "\<exists>res evs st'. suppress_calls sel ctx key st fn calls = (res, DoChan key # evs, st')"
proof (cases calls)
  case Nil
  obtain res evs st' where f: "fn (WithValue ctx key) st = (res, evs, st')"
    by (cases "fn (WithValue ctx key) st")
  show ?thesis unfolding Nil by (simp add: f Let_def)
next
  case (Cons res later)
  obtain res' evs st' where f: "suppress_calls sel ctx key st fn later = (res', evs, st')"
    by (cases "suppress_calls sel ctx key st fn later")
  show ?thesis
  proof (cases "ctx_err ctx \<noteq> None \<and> sel")
    case True
    then show ?thesis unfolding Cons by simp
  next
    case False
    then show ?thesis unfolding Cons
      by (cases "is_err (snd res) ContextCanceled") (simp_all add: f)
  qed
qed

lemma suppress_calls_lead:
  "suppress_calls sel ctx key st fn [] =
     ((if ctx_err ctx \<noteq> None \<and> sel then (None, ctx_err ctx) else fst (fn (WithValue ctx key) st)),
      DoChan key # fst (snd (fn (WithValue ctx key) st))
        @ (if is_err (snd (fst (fn (WithValue ctx key) st))) ContextCanceled then [Forget key] else []),
      snd (snd (fn (WithValue ctx key) st)))"
  by (cases "fn (WithValue ctx key) st") (simp add: Let_def)

text \<open>
  The captured variables and the storage events of a call through the group are those
  of the one run of \<open>fn\<close>, when there is one.
\<close>

lemma suppress_calls_effects:
  "snd (snd (suppress_calls sel ctx key st fn calls)) =
     (if reaches_lead sel ctx calls then snd (snd (fn (WithValue ctx key) st)) else st)
   \<and> filter is_Put (fst (snd (suppress_calls sel ctx key st fn calls))) =
     (if reaches_lead sel ctx calls then filter is_Put (fst (snd (fn (WithValue ctx key) st))) else [])
   \<and> filter is_Delete (fst (snd (suppress_calls sel ctx key st fn calls))) =
     (if reaches_lead sel ctx calls then filter is_Delete (fst (snd (fn (WithValue ctx key) st))) else [])"
proof (induction calls)
  case Nil
  show ?case unfolding suppress_calls_lead by simp
next
  case (Cons res later)
  obtain res' evs st' where f: "suppress_calls sel ctx key st fn later = (res', evs, st')"
    by (cases "suppress_calls sel ctx key st fn later")
  show ?case
  proof (cases "ctx_err ctx \<noteq> None \<and> sel")
    case True
    then show ?thesis by simp
  next
    case False
    note nd = this
    show ?thesis
    proof (cases "is_err (snd res) ContextCanceled")
      case True
      with nd Cons f show ?thesis by auto
    next
      case False
      with nd show ?thesis by auto
    qed
  qed
qed

lemma suppress_effects:
  "snd (snd (suppress ev ctx key st fn)) =
     (case runs_with ev ctx key of None \<Rightarrow> st | Some c \<Rightarrow> snd (snd (fn c st)))"
  "filter is_Put (fst (snd (suppress ev ctx key st fn))) =
     (case runs_with ev ctx key of None \<Rightarrow> [] | Some c \<Rightarrow> filter is_Put (fst (snd (fn c st))))"
  "filter is_Delete (fst (snd (suppress ev ctx key st fn))) =
     (case runs_with ev ctx key of None \<Rightarrow> [] | Some c \<Rightarrow> filter is_Delete (fst (snd (fn c st))))"
  using suppress_calls_effects[of "select_done ev" ctx key st fn "inflight ev key"]
  by (simp_all add: suppress_def runs_with_def)

lemma runs_with_holds: "runs_with ev ctx key = Some c \<Longrightarrow> holds c key"
  by (auto simp: runs_with_def holds_def WithValue_def split: if_splits)

text \<open>
  Claim C5. For every context, key and function \<open>fn\<close>: when the context carries the
  marker of the key, \<open>suppress\<close> is \<open>fn\<close> called directly on that context, with no
  operation on the group; when it does not, the call goes through the group of the key
  (its trace starts with the \<open>DoChan\<close> on the key). When no call is in flight the
  caller leads: \<open>fn\<close> runs on the context extended with the marker of the key, and a
  \<open>suppress\<close> on that context for the same key calls \<open>fn\<close> directly. Whenever \<open>suppress\<close>
  runs \<open>fn\<close>, the context it runs it on carries the marker, and the variables \<open>fn\<close>
  captures change only through that one run.
\<close>

theorem suppress_marker_routing:
  "(holds ctx key \<longrightarrow> suppress ev ctx key st fn = fn ctx st)
   \<and> (\<not> holds ctx key \<longrightarrow>
        (\<exists>res evs st'. suppress ev ctx key st fn = (res, DoChan key # evs, st')))
   \<and> (\<not> holds ctx key \<and> inflight ev key = [] \<longrightarrow>
        suppress ev ctx key st fn =
          ((if ctx_err ctx \<noteq> None \<and> select_done ev then (None, ctx_err ctx)
            else fst (fn (WithValue ctx key) st)),
           DoChan key # fst (snd (fn (WithValue ctx key) st))
             @ (if is_err (snd (fst (fn (WithValue ctx key) st))) ContextCanceled
                then [Forget key] else []),
           snd (snd (fn (WithValue ctx key) st)))
        \<and> holds (WithValue ctx key) key
        \<and> suppress ev (WithValue ctx key) key st fn = fn (WithValue ctx key) st)
   \<and> (\<forall>c. runs_with ev ctx key = Some c \<longrightarrow> holds c key)
   \<and> snd (snd (suppress ev ctx key st fn)) =
        (case runs_with ev ctx key of None \<Rightarrow> st | Some c \<Rightarrow> snd (snd (fn c st)))"
proof (intro conjI impI allI)
  assume "holds ctx key"
  then show "suppress ev ctx key st fn = fn ctx st" by (simp add: suppress_def)
next
  assume "\<not> holds ctx key"
  then show "\<exists>res evs st'. suppress ev ctx key st fn = (res, DoChan key # evs, st')"
    using suppress_calls_DoChan[of "select_done ev" ctx key st fn "inflight ev key"]
    by (simp add: suppress_def)
next
  assume h: "\<not> holds ctx key \<and> inflight ev key = []"
  then show "suppress ev ctx key st fn =
          ((if ctx_err ctx \<noteq> None \<and> select_done ev then (None, ctx_err ctx)
            else fst (fn (WithValue ctx key) st)),
           DoChan key # fst (snd (fn (WithValue ctx key) st))
             @ (if is_err (snd (fst (fn (WithValue ctx key) st))) ContextCanceled
                then [Forget key] else []),
           snd (snd (fn (WithValue ctx key) st)))"
    unfolding suppress_def using suppress_calls_lead[of "select_done ev" ctx key st fn] by simp
  show m: "holds (WithValue ctx key) key" by (simp add: holds_def WithValue_def)
  then show "suppress ev (WithValue ctx key) key st fn = fn (WithValue ctx key) st"
    by (simp add: suppress_def)
next
  fix c assume "runs_with ev ctx key = Some c"
  then show "holds c key" by (rule runs_with_holds)
next
  show "snd (snd (suppress ev ctx key st fn)) =
        (case runs_with ev ctx key of None \<Rightarrow> st | Some c \<Rightarrow> snd (snd (fn c st)))"
    by (rule suppress_effects(1))
qed

lemma suppress_probe_joined:
  "suppress (env_plain\<lparr>inflight := (\<lambda>key. [(Some blob_b, None)])\<rparr>) ctx_live ''k'' False
     (fn_probe ''k'') = ((Some blob_b, None), [DoChan ''k''], False)"
  by (simp add: suppress_def holds_def ctx_live_def env_plain_def is_err_def)

text \<open>
  The theorem at a closure that records whether its context holds the marker: with the
  marker \<open>suppress\<close> calls it directly (no \<open>DoChan\<close>), without the marker and with no
  call in flight it leads through the group and runs it on a context that holds the
  marker; with a call in flight it takes that call's result and does not run the
  closure.
\<close>

theorem suppress_marker_routing_witness:
  "holds (WithValue ctx_live ''k'') ''k''
   \<and> suppress env_plain (WithValue ctx_live ''k'') ''k'' False (fn_probe ''k'')
       = ((Some blob_a, None), [], True)
   \<and> \<not> holds ctx_live ''k''
   \<and> inflight env_plain ''k'' = []
   \<and> suppress env_plain ctx_live ''k'' False (fn_probe ''k'')
       = ((Some blob_a, None), [DoChan ''k''], True)
   \<and> runs_with env_plain ctx_live ''k'' = Some (WithValue ctx_live ''k'')
   \<and> suppress (env_plain\<lparr>inflight := (\<lambda>key. [(Some blob_b, None)])\<rparr>) ctx_live ''k'' False
        (fn_probe ''k'') = ((Some blob_b, None), [DoChan ''k''], False)"
proof -
  have h: "holds (WithValue ctx_live ''k'') ''k''" by (simp add: holds_def WithValue_def)
  have n: "\<not> holds ctx_live ''k''" by (simp add: holds_def ctx_live_def)
  have i: "inflight env_plain ''k'' = []" by (simp add: env_plain_def)
  from suppress_marker_routing[where ev=env_plain and ctx="WithValue ctx_live ''k''" and key="''k''"
      and st=False and fn="fn_probe ''k''", THEN conjunct1, THEN mp, OF h]
  have s1: "suppress env_plain (WithValue ctx_live ''k'') ''k'' False (fn_probe ''k'')
       = ((Some blob_a, None), [], True)"
    by (simp add: fn_probe_def h)
  from suppress_marker_routing[where ev=env_plain and ctx=ctx_live and key="''k''"
      and st=False and fn="fn_probe ''k''", THEN conjunct2, THEN conjunct2, THEN conjunct1,
      THEN mp, OF conjI, OF n i, THEN conjunct1]
  have s2: "suppress env_plain ctx_live ''k'' False (fn_probe ''k'')
       = ((Some blob_a, None), [DoChan ''k''], True)"
  proof -
    have e: "ctx_err ctx_live = None" by (simp add: ctx_live_def)
    assume "suppress env_plain ctx_live ''k'' False (fn_probe ''k'') =
      ((if ctx_err ctx_live \<noteq> None \<and> select_done env_plain then (None, ctx_err ctx_live)
        else fst (fn_probe ''k'' (WithValue ctx_live ''k'') False)),
       DoChan ''k'' # fst (snd (fn_probe ''k'' (WithValue ctx_live ''k'') False))
         @ (if is_err (snd (fst (fn_probe ''k'' (WithValue ctx_live ''k'') False))) ContextCanceled
            then [Forget ''k''] else []),
       snd (snd (fn_probe ''k'' (WithValue ctx_live ''k'') False)))"
    then show ?thesis by (simp add: e fn_probe_def h is_err_def)
  qed
  have r: "runs_with env_plain ctx_live ''k'' = Some (WithValue ctx_live ''k'')"
    by (simp add: runs_with_def n i)
  from h s1 n i s2 r suppress_probe_joined show ?thesis by (intro conjI)
qed

section \<open>Properties of the source fetch and of the engine\<close>

lemma filter_save_del:
  "filter is_Put (save ss key blob) = save ss key blob"
  "filter is_Delete (save ss key blob) = []"
  "filter is_Put (del ss key) = []"
  "filter is_Delete (del ss key) = del ss key"
  by (induction ss) (simp_all add: save_def del_def)

text \<open>
  The closure of \<open>loadStorage\<close>: it returns what \<open>load\<close> returned, saves when the
  condition of line 325 holds, and only then sets \<open>isSave\<close>.
\<close>

lemma loadStorage_fn_eq:
  "loadStorage_fn app ev r key c isSave =
     ((fst (fetch_load app ev r key c), snd (snd (fetch_load app ev r key c))),
      (if saves_back app ev r key c then save (Storages app) key (fst (fetch_load app ev r key c))
       else []),
      (if saves_back app ev r key c then True else isSave))"
  by (cases "fetch_load app ev r key c")
     (auto simp: loadStorage_fn_def saves_back_def fetch_load_def)

lemma loadStorage_effects:
  "fst (snd (loadStorage app ev r key)) =
     (case runs_with ev (req_ctx r) (''img:'' @ key) of
        None \<Rightarrow> False | Some c \<Rightarrow> saves_back app ev r key c)"
  "filter is_Put (snd (snd (snd (loadStorage app ev r key)))) =
     (case runs_with ev (req_ctx r) (''img:'' @ key) of
        None \<Rightarrow> []
      | Some c \<Rightarrow> if saves_back app ev r key c
                  then save (Storages app) key (fst (fetch_load app ev r key c)) else [])"
  "filter is_Delete (snd (snd (snd (loadStorage app ev r key)))) = []"
proof -
  let ?S = "suppress ev (req_ctx r) (''img:'' @ key) False (loadStorage_fn app ev r key)"
  have ls: "loadStorage app ev r key = (fst (fst ?S), snd (snd ?S), snd (fst ?S), fst (snd ?S))"
    by (cases ?S) (auto simp: loadStorage_def)
  show "fst (snd (loadStorage app ev r key)) =
     (case runs_with ev (req_ctx r) (''img:'' @ key) of
        None \<Rightarrow> False | Some c \<Rightarrow> saves_back app ev r key c)"
    unfolding ls by (simp add: suppress_effects(1) loadStorage_fn_eq split: option.splits)
  show "filter is_Put (snd (snd (snd (loadStorage app ev r key)))) =
     (case runs_with ev (req_ctx r) (''img:'' @ key) of
        None \<Rightarrow> []
      | Some c \<Rightarrow> if saves_back app ev r key c
                  then save (Storages app) key (fst (fetch_load app ev r key c)) else [])"
    unfolding ls by (simp add: suppress_effects(2) loadStorage_fn_eq filter_save_del split: option.splits)
  show "filter is_Delete (snd (snd (snd (loadStorage app ev r key)))) = []"
    unfolding ls by (simp add: suppress_effects(3) loadStorage_fn_eq filter_save_del split: option.splits)
qed

text \<open>The trace of the closure of \<open>Do\<close>: the source fetch, the result write, the delete.\<close>

lemma Do_fn_trace:
  "fst (snd (Do_fn app ev r p resultKey ctx ())) =
     fetch_events app ev r p resultKey ctx
     @ (case chain_end app ev r p resultKey ctx of
          Some ((blob, None), isSave) \<Rightarrow>
            if ResultStorages app \<noteq> [] then save (ResultStorages app) resultKey blob else []
        | _ \<Rightarrow> [])
     @ (case chain_end app ev r p resultKey ctx of
          Some ((blob, Some e), True) \<Rightarrow> del (Storages app) (p_Image p)
        | _ \<Rightarrow> [])"
proof (cases "\<not> p_Meta p \<and> loadResult app ev r resultKey (p_Image p) False \<noteq> None")
  case True
  then show ?thesis by (auto simp: Do_fn_def fetch_events_def chain_end_def)
next
  case False
  note probe = this
  show ?thesis
  proof (cases "ProcessConcurrency app > 0 \<and> acquire ev ctx \<noteq> None")
    case True
    with probe show ?thesis by (auto simp: Do_fn_def fetch_events_def chain_end_def)
  next
    case False
    note sema = this
    obtain blob isSave err evs where ls: "loadStorage app ev r (p_Image p) = (blob, isSave, err, evs)"
      by (cases "loadStorage app ev r (p_Image p)")
    show ?thesis
    proof (cases "err \<noteq> None \<or> isBlobEmpty blob")
      case True
      with probe sema ls show ?thesis by (auto simp: Do_fn_def fetch_events_def chain_end_def)
    next
      case False
      obtain blob' err' where pc: "process_chain ev
          (if ProcessTimeout app > 0 then WithTimeout ctx (ProcessTimeout app) else ctx)
          p (Processors app) blob err = (blob', err')"
        by (cases "process_chain ev
          (if ProcessTimeout app > 0 then WithTimeout ctx (ProcessTimeout app) else ctx)
          p (Processors app) blob err")
      from False probe sema ls pc show ?thesis
        by (cases err'; cases isSave) (auto simp: Do_fn_def fetch_events_def chain_end_def Let_def)
    qed
  qed
qed

text \<open>
  \<open>Do\<close> in terms of the request and the params it works with.
\<close>

lemma Do_unfold:
  "Do app ev r0 p0 =
     (if sign_mismatch app p0 then ((None, Some ErrSignatureMismatch), [])
      else
        (case (if p_Meta (normalize app ev (Do_request app r0) p0)
               then loadResult app ev (Do_request app r0)
                      (resultKey_of app (normalize app ev (Do_request app r0) p0))
                      (p_Image (normalize app ev (Do_request app r0) p0)) True
               else None) of
           Some hit \<Rightarrow> ((Some hit, None), [])
         | None \<Rightarrow>
             (fst (suppress ev (req_ctx (Do_request app r0))
                     (''res:'' @ resultKey_of app (normalize app ev (Do_request app r0) p0)) ()
                     (Do_fn app ev (Do_request app r0) (normalize app ev (Do_request app r0) p0)
                        (resultKey_of app (normalize app ev (Do_request app r0) p0)))),
              fst (snd (suppress ev (req_ctx (Do_request app r0))
                     (''res:'' @ resultKey_of app (normalize app ev (Do_request app r0) p0)) ()
                     (Do_fn app ev (Do_request app r0) (normalize app ev (Do_request app r0) p0)
                        (resultKey_of app (normalize app ev (Do_request app r0) p0))))))))"
  by (cases "RequestTimeout app > 0")
     (simp_all add: Do_def Let_def Do_request_def WithContext_def split: prod.splits option.splits)

lemma Do_effects:
  "filter is_Put (snd (Do app ev r0 p0)) =
     (case engine_ctx app ev r0 p0 of
        None \<Rightarrow> []
      | Some c \<Rightarrow>
          filter is_Put (fst (snd (Do_fn app ev (Do_request app r0)
            (normalize app ev (Do_request app r0) p0)
            (resultKey_of app (normalize app ev (Do_request app r0) p0)) c ()))))"
  "filter is_Delete (snd (Do app ev r0 p0)) =
     (case engine_ctx app ev r0 p0 of
        None \<Rightarrow> []
      | Some c \<Rightarrow>
          filter is_Delete (fst (snd (Do_fn app ev (Do_request app r0)
            (normalize app ev (Do_request app r0) p0)
            (resultKey_of app (normalize app ev (Do_request app r0) p0)) c ()))))"
  unfolding Do_unfold engine_ctx_def Let_def
  by (auto simp: suppress_effects(2) suppress_effects(3) split: option.splits)

text \<open>
  A chain whose processors all pass without a blob leaves the blob and the error as they
  were.
\<close>

lemma process_chain_all_pass:
  "\<forall>pr \<in> set procs. passes ev ctx p blob pr \<Longrightarrow>
   process_chain ev ctx p procs blob err = (blob, err)"
proof (induction procs)
  case Nil
  then show ?case by simp
next
  case (Cons pr procs)
  obtain b e where be: "checkBlob ev (pr ctx blob p) = (b, e)" by (cases "checkBlob ev (pr ctx blob p)")
  from Cons.prems be have "e = Some ErrPass" "isBlobEmpty b" by (simp_all add: passes_def)
  with Cons be show ?case by simp
qed

lemmas cfg_defs = app_raw_def app_failing_def app_passing_def app_processed_def app_bare_def
  env_plain_def req_get_def params_img_def ctx_live_def loader_const_def processor_const_def
  storage_const_def st_nil_def blob_a_def blob_b_def

lemmas run_defs = Do_def Do_fn_def Let_def sign_mismatch_def normalize_def resultKey_of_def
  loadResult_def load_def suppress_def loadStorage_def loadStorage_fn_def
  holds_def WithValue_def WithContext_def isBlobEmpty_def TrimPrefix_def is_err_def save_def del_def




lemma Do_failing:
  "Do app_failing env_plain req_get params_img
     = ((Some blob_a, Some ErrInternal),
        [DoChan ''res:img'', DoChan ''img:img'', Put ''s3'' ''img'' (Some blob_a),
         Delete ''s3'' ''img''])"
  by (simp add: cfg_defs run_defs)

lemma Do_raw:
  "Do app_raw env_plain req_get params_img
     = ((Some blob_a, None),
        [DoChan ''res:img'', DoChan ''img:img'', Put ''s3'' ''img'' (Some blob_a),
         Put ''res'' ''img'' (Some blob_a)])"
  by (simp add: cfg_defs run_defs)

lemma Do_passing:
  "Do app_passing env_plain req_get params_img
     = ((Some blob_a, None),
        [DoChan ''res:img'', DoChan ''img:img'', Put ''s3'' ''img'' (Some blob_a),
         Put ''res'' ''img'' (Some blob_a)])"
  by (simp add: cfg_defs run_defs passes_def)

lemma Do_processed:
  "Do app_processed env_plain req_get params_img
     = ((Some blob_b, None),
        [DoChan ''res:img'', DoChan ''img:img'', Put ''s3'' ''img'' (Some blob_a),
         Put ''res'' ''img'' (Some blob_b)])"
  by (simp add: cfg_defs run_defs)

lemma chain_end_passing:
  "chain_end app_passing env_plain req_get params_img ''img'' (WithValue ctx_live ''res:img'')
     = Some ((Some blob_a, None), True)"
  by (simp add: chain_end_def cfg_defs run_defs)

lemma chain_end_processed:
  "chain_end app_processed env_plain req_get params_img ''img'' (WithValue ctx_live ''res:img'')
     = Some ((Some blob_b, None), True)"
  by (simp add: chain_end_def cfg_defs run_defs)

lemma passes_passing:
  "passes env_plain (WithValue ctx_live ''res:img'') params_img (Some blob_a)
     (processor_const (None, Some ErrPass))"
  by (simp add: passes_def cfg_defs isBlobEmpty_def)




lemma Do_fn_puts:
  "filter is_Put (fst (snd (Do_fn app ev r p resultKey ctx ()))) =
     filter is_Put (fetch_events app ev r p resultKey ctx)
     @ (case chain_end app ev r p resultKey ctx of
          Some ((blob, None), isSave) \<Rightarrow>
            if ResultStorages app \<noteq> [] then save (ResultStorages app) resultKey blob else []
        | _ \<Rightarrow> [])"
  unfolding Do_fn_trace
  by (simp add: filter_save_del split: option.splits prod.splits bool.splits)

lemma fetch_events_puts:
  "filter is_Put (fetch_events app ev r p resultKey ctx) =
     (if \<not> p_Meta p \<and> loadResult app ev r resultKey (p_Image p) False \<noteq> None then []
      else if ProcessConcurrency app > 0 \<and> acquire ev ctx \<noteq> None then []
      else
        (case runs_with ev (req_ctx r) (''img:'' @ p_Image p) of
           None \<Rightarrow> []
         | Some c \<Rightarrow>
             if saves_back app ev r (p_Image p) c
             then save (Storages app) (p_Image p) (fst (fetch_load app ev r (p_Image p) c))
             else []))"
  by (auto simp: fetch_events_def loadStorage_effects(2))


lemma chain_end_all_pass:
  assumes ce: "chain_end app ev r p resultKey ctx = Some ((blob, err), isSave)"
    and ps: "\<forall>pr \<in> set (Processors app).
               passes ev (if ProcessTimeout app > 0 then WithTimeout ctx (ProcessTimeout app) else ctx)
                 p (fst (loadStorage app ev r (p_Image p))) pr"
  shows "blob = fst (loadStorage app ev r (p_Image p)) \<and> err = None"
proof -
  obtain b s e evs where ls: "loadStorage app ev r (p_Image p) = (b, s, e, evs)"
    by (cases "loadStorage app ev r (p_Image p)")
  from ps ls have ps': "\<forall>pr \<in> set (Processors app).
      passes ev (if ProcessTimeout app > 0 then WithTimeout ctx (ProcessTimeout app) else ctx) p b pr"
    by simp
  from ce ls have e: "e = None" and
    pc: "process_chain ev (if ProcessTimeout app > 0 then WithTimeout ctx (ProcessTimeout app) else ctx)
           p (Processors app) b e = (blob, err)"
    by (auto simp: chain_end_def split: if_splits)
  from pc process_chain_all_pass[OF ps', of e] e ls show ?thesis by simp
qed



text \<open>
  Claim C3, as the code has it. The \<open>Put\<close> events of one run of the closure of \<open>Do\<close> are
  the save-back of the source fetch (to the source storages, under the image key)
  followed by the result write: the blob the processor chain ended with, saved to the
  result storages under \<open>resultKey\<close>, exactly when the chain was reached, ended with a
  nil error, and result storages are configured. When every processor passes without a
  blob, and so when no processor is configured, that blob is the source blob. The
  \<open>Put\<close> events of \<open>Do\<close> are those of the one run of its closure, when there is one.
\<close>

theorem result_write_iff_chain_ok:
  "filter is_Put (fst (snd (Do_fn app ev r p resultKey ctx ()))) =
     filter is_Put (fetch_events app ev r p resultKey ctx)
     @ (case chain_end app ev r p resultKey ctx of
          Some ((blob, None), isSave) \<Rightarrow>
            if ResultStorages app \<noteq> [] then save (ResultStorages app) resultKey blob else []
        | _ \<Rightarrow> [])
   \<and> filter is_Put (fetch_events app ev r p resultKey ctx) =
       (if \<not> p_Meta p \<and> loadResult app ev r resultKey (p_Image p) False \<noteq> None then []
        else if ProcessConcurrency app > 0 \<and> acquire ev ctx \<noteq> None then []
        else
          (case runs_with ev (req_ctx r) (''img:'' @ p_Image p) of
             None \<Rightarrow> []
           | Some c \<Rightarrow>
               if saves_back app ev r (p_Image p) c
               then save (Storages app) (p_Image p) (fst (fetch_load app ev r (p_Image p) c))
               else []))
   \<and> (\<forall>blob err isSave.
         chain_end app ev r p resultKey ctx = Some ((blob, err), isSave)
         \<and> (\<forall>pr \<in> set (Processors app).
               passes ev (if ProcessTimeout app > 0 then WithTimeout ctx (ProcessTimeout app) else ctx)
                 p (fst (loadStorage app ev r (p_Image p))) pr)
         \<longrightarrow> blob = fst (loadStorage app ev r (p_Image p)) \<and> err = None)
   \<and> filter is_Put (snd (Do app ev r0 p0)) =
       (case engine_ctx app ev r0 p0 of
          None \<Rightarrow> []
        | Some c \<Rightarrow>
            filter is_Put (fst (snd (Do_fn app ev (Do_request app r0)
              (normalize app ev (Do_request app r0) p0)
              (resultKey_of app (normalize app ev (Do_request app r0) p0)) c ()))))"
proof (intro conjI allI impI)
  show "filter is_Put (fst (snd (Do_fn app ev r p resultKey ctx ()))) =
     filter is_Put (fetch_events app ev r p resultKey ctx)
     @ (case chain_end app ev r p resultKey ctx of
          Some ((blob, None), isSave) \<Rightarrow>
            if ResultStorages app \<noteq> [] then save (ResultStorages app) resultKey blob else []
        | _ \<Rightarrow> [])"
    by (rule Do_fn_puts)
  show "filter is_Put (fetch_events app ev r p resultKey ctx) =
       (if \<not> p_Meta p \<and> loadResult app ev r resultKey (p_Image p) False \<noteq> None then []
        else if ProcessConcurrency app > 0 \<and> acquire ev ctx \<noteq> None then []
        else
          (case runs_with ev (req_ctx r) (''img:'' @ p_Image p) of
             None \<Rightarrow> []
           | Some c \<Rightarrow>
               if saves_back app ev r (p_Image p) c
               then save (Storages app) (p_Image p) (fst (fetch_load app ev r (p_Image p) c))
               else []))"
    by (rule fetch_events_puts)
  show "filter is_Put (snd (Do app ev r0 p0)) =
       (case engine_ctx app ev r0 p0 of
          None \<Rightarrow> []
        | Some c \<Rightarrow>
            filter is_Put (fst (snd (Do_fn app ev (Do_request app r0)
              (normalize app ev (Do_request app r0) p0)
              (resultKey_of app (normalize app ev (Do_request app r0) p0)) c ()))))"
    by (rule Do_effects(1))
next
  fix blob err isSave
  assume a: "chain_end app ev r p resultKey ctx = Some ((blob, err), isSave)
         \<and> (\<forall>pr \<in> set (Processors app).
               passes ev (if ProcessTimeout app > 0 then WithTimeout ctx (ProcessTimeout app) else ctx)
                 p (fst (loadStorage app ev r (p_Image p))) pr)"
  from chain_end_all_pass[OF a[THEN conjunct1] a[THEN conjunct2]]
  show "blob = fst (loadStorage app ev r (p_Image p))" and "err = None" by simp_all
qed


lemma loadStorage_passing:
  "loadStorage app_passing env_plain req_get ''img''
     = (Some blob_a, True, None, [DoChan ''img:img'', Put ''s3'' ''img'' (Some blob_a)])"
  by (simp add: cfg_defs run_defs)

lemma chain_end_raw:
  "chain_end app_raw env_plain req_get params_img ''img'' (WithValue ctx_live ''res:img'')
     = Some ((Some blob_a, None), True)"
  by (simp add: chain_end_def cfg_defs run_defs)

lemma fetch_events_processed:
  "fetch_events app_processed env_plain req_get params_img ''img'' (WithValue ctx_live ''res:img'')
     = [DoChan ''img:img'', Put ''s3'' ''img'' (Some blob_a)]"
  by (simp add: fetch_events_def cfg_defs run_defs)

text \<open>
  The theorem at one passing processor (the chain ends with the source blob), at one
  processor that succeeds with \<open>blob_b\<close> (\<open>blob_b\<close> is written to the result storage) and
  at one processor that fails (nothing is written to the result storage).
\<close>

theorem result_write_iff_chain_ok_witness:
  "chain_end app_passing env_plain req_get params_img ''img'' (WithValue ctx_live ''res:img'')
     = Some ((Some blob_a, None), True)
   \<and> Processors app_passing = [processor_const (None, Some ErrPass)]
   \<and> passes env_plain (WithValue ctx_live ''res:img'') params_img (Some blob_a)
        (processor_const (None, Some ErrPass))
   \<and> fst (loadStorage app_passing env_plain req_get (p_Image params_img)) = Some blob_a
   \<and> chain_end app_processed env_plain req_get params_img ''img'' (WithValue ctx_live ''res:img'')
       = Some ((Some blob_b, None), True)
   \<and> filter is_Put (fst (snd (Do_fn app_processed env_plain req_get params_img ''img''
        (WithValue ctx_live ''res:img'') ())))
       = [Put ''s3'' ''img'' (Some blob_a), Put ''res'' ''img'' (Some blob_b)]
   \<and> filter is_Put (snd (Do app_processed env_plain req_get params_img))
       = [Put ''s3'' ''img'' (Some blob_a), Put ''res'' ''img'' (Some blob_b)]
   \<and> filter is_Put (snd (Do app_failing env_plain req_get params_img))
       = [Put ''s3'' ''img'' (Some blob_a)]"
proof -
  note t = result_write_iff_chain_ok[where ev=env_plain and r=req_get and p=params_img
      and resultKey="''img''" and ctx="WithValue ctx_live ''res:img''" and ?r0.0=req_get
      and ?p0.0=params_img]
  have pr: "Processors app_passing = [processor_const (None, Some ErrPass)]"
    by (simp add: app_passing_def)
  have pt: "ProcessTimeout app_passing = 0"
    by (simp add: app_passing_def app_raw_def app_bare_def)
  have im: "p_Image params_img = ''img''" by (simp add: params_img_def)
  have ps: "\<forall>pr \<in> set (Processors app_passing).
      passes env_plain
        (if ProcessTimeout app_passing > 0
         then WithTimeout (WithValue ctx_live ''res:img'') (ProcessTimeout app_passing)
         else WithValue ctx_live ''res:img'')
        params_img (fst (loadStorage app_passing env_plain req_get (p_Image params_img))) pr"
    by (simp add: pr pt im loadStorage_passing passes_passing)
  from t[where app=app_passing, THEN conjunct2, THEN conjunct2, THEN conjunct1, rule_format,
      OF conjI, OF chain_end_passing ps]
  have src: "fst (loadStorage app_passing env_plain req_get (p_Image params_img)) = Some blob_a"
    by simp
  have rs: "ResultStorages app_processed = [storage_const ''res'' (None, Some ErrNotFound)]"
    by (simp add: app_processed_def app_raw_def)
  from t[where app=app_processed, THEN conjunct1]
  have puts: "filter is_Put (fst (snd (Do_fn app_processed env_plain req_get params_img ''img''
        (WithValue ctx_live ''res:img'') ())))
       = [Put ''s3'' ''img'' (Some blob_a), Put ''res'' ''img'' (Some blob_b)]"
    unfolding chain_end_processed fetch_events_processed
    by (simp add: rs save_def storage_const_def)
  have p2: "filter is_Put (snd (Do app_processed env_plain req_get params_img))
       = [Put ''s3'' ''img'' (Some blob_a), Put ''res'' ''img'' (Some blob_b)]"
    by (simp add: Do_processed)
  have p3: "filter is_Put (snd (Do app_failing env_plain req_get params_img))
       = [Put ''s3'' ''img'' (Some blob_a)]"
    by (simp add: Do_failing)
  from chain_end_passing pr passes_passing src chain_end_processed puts p2 p3
  show ?thesis by (intro conjI)
qed

text \<open>
  Claim C3 as stated fails: with no processor configured the chain ends with a nil
  error and the blob the loader served, and \<open>Do\<close> writes these raw source bytes to the
  result storage \<open>res\<close>.
\<close>

theorem result_write_raw_source_counterexample:
  "Processors app_raw = []
   \<and> map storage_name (ResultStorages app_raw) = [''res'']
   \<and> fetch_load app_raw env_plain req_get ''img'' (WithValue ctx_live ''img:img'')
       = (Some blob_a, None, None)
   \<and> chain_end app_raw env_plain req_get params_img ''img'' (WithValue ctx_live ''res:img'')
       = Some ((Some blob_a, None), True)
   \<and> Do app_raw env_plain req_get params_img
       = ((Some blob_a, None),
          [DoChan ''res:img'', DoChan ''img:img'', Put ''s3'' ''img'' (Some blob_a),
           Put ''res'' ''img'' (Some blob_a)])"
proof -
  have a: "Processors app_raw = []" by (simp add: app_raw_def app_bare_def)
  have b: "map storage_name (ResultStorages app_raw) = [''res'']"
    by (simp add: app_raw_def storage_const_def)
  have c: "fetch_load app_raw env_plain req_get ''img'' (WithValue ctx_live ''img:img'')
       = (Some blob_a, None, None)"
    by (simp add: fetch_load_def cfg_defs run_defs)
  from a b c chain_end_raw Do_raw show ?thesis by (intro conjI)
qed

section \<open>Properties of the HTTP adapter\<close>

text \<open>
  \<open>ServeHTTP\<close> on a \<open>GET\<close> or \<open>HEAD\<close> of an image path, by what \<open>checkBlob\<close> makes of the
  result of \<open>Do\<close>.
\<close>

lemma ServeHTTP_image:
  assumes m: "req_method r = ''GET'' \<or> req_method r = ''HEAD''"
    and path: "req_path r \<noteq> ''/''" "req_path r \<noteq> []"
    and np: "\<not> p_Params (Parse ev (req_path r))"
    and cb: "checkBlob ev (fst (Do app ev r (Parse ev (req_path r)))) = (blob, err)"
  shows "ServeHTTP app ev r =
     (case (if err = None \<and> p_Meta (Parse ev (req_path r)) then Meta_of blob else None) of
        Some m \<Rightarrow> Some (writeJSON empty_response r (JSONMeta m))
      | None \<Rightarrow>
        (let w1 = (case blob of
                     Some b \<Rightarrow> if \<not> isBlobEmpty blob
                                 then empty_response\<lparr>resp_content_type := Some (blob_content_type b)\<rparr>
                                 else empty_response
                   | None \<Rightarrow> empty_response)
         in case err of
              Some e \<Rightarrow>
                if errors_Is e ContextCanceled then Some (w1\<lparr>resp_status := 499\<rparr>)
                else
                  (let herr = WrapError ev e in
                   if DisableErrorBody app then Some (w1\<lparr>resp_status := Code herr\<rparr>)
                   else
                     (case blob of
                        Some b \<Rightarrow>
                          if \<not> isBlobEmpty blob \<and> blob_opens b
                          then writeBody (w1\<lparr>resp_status := Code herr\<rparr>) r b
                          else Some (writeJSON (w1\<lparr>resp_status := Code herr\<rparr>) r (JSONError herr))
                      | None \<Rightarrow>
                          Some (writeJSON (w1\<lparr>resp_status := Code herr\<rparr>) r (JSONError herr))))
            | None \<Rightarrow>
                (case blob of
                   Some b \<Rightarrow>
                     if isBlobEmpty blob then Some w1
                     else writeBody (w1\<lparr>resp_cache := True\<rparr>) r b
                 | None \<Rightarrow> Some w1)))"
  using m path np by (auto simp: ServeHTTP_def Let_def cb)

lemma ServeHTTP_image_499:
  assumes m: "req_method r = ''GET'' \<or> req_method r = ''HEAD''"
    and path: "req_path r \<noteq> ''/''" "req_path r \<noteq> []"
    and np: "\<not> p_Params (Parse ev (req_path r))"
    and codes: "\<forall>e. Code (WrapError ev e) \<noteq> 499"
  shows "(case ServeHTTP app ev r of None \<Rightarrow> False | Some w \<Rightarrow> resp_status w = 499)
     = is_err (snd (checkBlob ev (fst (Do app ev r (Parse ev (req_path r)))))) ContextCanceled"
proof -
  obtain blob err where cb: "checkBlob ev (fst (Do app ev r (Parse ev (req_path r)))) = (blob, err)"
    by (cases "checkBlob ev (fst (Do app ev r (Parse ev (req_path r))))")
  let ?w1 = "(case blob of
                     Some b \<Rightarrow> if \<not> isBlobEmpty blob
                                 then empty_response\<lparr>resp_content_type := Some (blob_content_type b)\<rparr>
                                 else empty_response
                   | None \<Rightarrow> empty_response)"
  note S = ServeHTTP_image[OF m path np cb]
  show ?thesis
  proof (cases err)
    case None
    show ?thesis
    proof (cases "if p_Meta (Parse ev (req_path r)) then Meta_of blob else None")
      case (Some mm)
      with None show ?thesis unfolding S cb
        by (simp add: is_err_def writeJSON_def empty_response_def)
    next
      case N: None
      show ?thesis
      proof (cases blob)
        case None
        with N \<open>err = None\<close> show ?thesis unfolding S cb
          by (simp add: is_err_def empty_response_def)
      next
        case (Some b)
        show ?thesis
        proof (cases "isBlobEmpty blob")
          case True
          with Some N \<open>err = None\<close> show ?thesis unfolding S cb
            by (simp add: is_err_def empty_response_def)
        next
          case False
          with Some N \<open>err = None\<close> show ?thesis unfolding S cb
            by (simp add: is_err_def empty_response_def writeBody_def)
        qed
      qed
    qed
  next
    case (Some e)
    show ?thesis
    proof (cases "errors_Is e ContextCanceled")
      case True
      with Some show ?thesis unfolding S cb by (simp add: is_err_def Let_def)
    next
      case False
      from codes have c: "Code (WrapError ev e) \<noteq> 499" by simp
      from False Some c show ?thesis unfolding S cb
        by (auto simp: is_err_def Let_def writeJSON_def writeBody_def split: option.splits)
    qed
  qed
qed

lemma ServeHTTP_other_not_499:
  assumes "\<not> ((req_method r = ''GET'' \<or> req_method r = ''HEAD'')
              \<and> req_path r \<noteq> ''/'' \<and> req_path r \<noteq> [] \<and> \<not> p_Params (Parse ev (req_path r)))"
  shows "\<exists>w. ServeHTTP app ev r = Some w \<and> resp_status w \<noteq> 499"
  using assms by (auto simp: ServeHTTP_def Let_def writeJSON_def empty_response_def)

lemma ServeHTTP_canceled_response:
  assumes m: "req_method r = ''GET'' \<or> req_method r = ''HEAD''"
    and path: "req_path r \<noteq> ''/''" "req_path r \<noteq> []"
    and np: "\<not> p_Params (Parse ev (req_path r))"
    and c: "is_err (snd (checkBlob ev (fst (Do app ev r (Parse ev (req_path r)))))) ContextCanceled"
  shows "\<exists>w. ServeHTTP app ev r = Some w \<and> resp_status w = 499 \<and> resp_body w = NoBody"
proof -
  obtain blob err where cb: "checkBlob ev (fst (Do app ev r (Parse ev (req_path r)))) = (blob, err)"
    by (cases "checkBlob ev (fst (Do app ev r (Parse ev (req_path r))))")
  from c cb obtain e where e: "err = Some e" "errors_Is e ContextCanceled"
    by (cases err) (auto simp: is_err_def)
  show ?thesis unfolding ServeHTTP_image[OF m path np cb]
    by (simp add: e Let_def empty_response_def split: option.splits)
qed

text \<open>
  A caller without the marker whose context is done, when the \<open>select\<close> takes
  \<open>ctx.Done()\<close>, gets \<open>ctx.Err()\<close>.
\<close>

lemma suppress_done:
  assumes "\<not> holds ctx key" "ctx_err ctx \<noteq> None" "select_done ev"
  shows "fst (suppress ev ctx key st fn) = (None, ctx_err ctx)"
proof (cases "inflight ev key")
  case Nil
  with assms show ?thesis by (simp add: suppress_def Let_def split: prod.splits)
next
  case (Cons res later)
  with assms show ?thesis by (simp add: suppress_def)
qed

lemma Do_request_err: "ctx_err (req_ctx (Do_request app r)) = ctx_err (req_ctx r)"
  by (simp add: Do_request_def WithContext_def WithTimeout_def)

lemma Do_done:
  assumes "ctx_err (req_ctx r) \<noteq> None" "select_done ev" "\<not> sign_mismatch app p0"
    and "(if p_Meta (normalize app ev (Do_request app r) p0)
          then loadResult app ev (Do_request app r)
                 (resultKey_of app (normalize app ev (Do_request app r) p0))
                 (p_Image (normalize app ev (Do_request app r) p0)) True
          else None) = None"
    and "\<not> holds (req_ctx (Do_request app r))
             (''res:'' @ resultKey_of app (normalize app ev (Do_request app r) p0))"
  shows "fst (Do app ev r p0) = (None, ctx_err (req_ctx r))"
  using assms unfolding Do_unfold
  by (simp add: suppress_done Do_request_err)


text \<open>
  Claim C9, as the code has it. Provided \<open>WrapError\<close> maps no error to the code 499:
  for every request the status of the response is 499 exactly when the request is a
  \<open>GET\<close> or \<open>HEAD\<close> of an image path and the error \<open>Do\<close> returns (after \<open>checkBlob\<close>) is a
  cancellation, \<open>errors.Is(err, context.Canceled)\<close>, whoever raised it; such a response
  has no body. A caller context that is done gives \<open>Do\<close> the error \<open>ctx.Err()\<close> when the
  signature matches, the meta probe misses, and the \<open>select\<close> of \<open>suppress\<close> takes
  \<open>ctx.Done()\<close>.
\<close>

theorem status_499_iff_canceled_error:
  assumes codes: "\<forall>e. Code (WrapError ev e) \<noteq> 499"
  shows "(case ServeHTTP app ev r of None \<Rightarrow> False | Some w \<Rightarrow> resp_status w = 499)
           = ((req_method r = ''GET'' \<or> req_method r = ''HEAD'')
              \<and> req_path r \<noteq> ''/'' \<and> req_path r \<noteq> []
              \<and> \<not> p_Params (Parse ev (req_path r))
              \<and> is_err (snd (checkBlob ev (fst (Do app ev r (Parse ev (req_path r))))))
                   ContextCanceled)
         \<and> ((case ServeHTTP app ev r of None \<Rightarrow> False | Some w \<Rightarrow> resp_status w = 499)
              \<longrightarrow> (\<exists>w. ServeHTTP app ev r = Some w \<and> resp_body w = NoBody))
         \<and> (ctx_err (req_ctx r) \<noteq> None \<and> select_done ev \<and> \<not> sign_mismatch app p0
              \<and> (if p_Meta (normalize app ev (Do_request app r) p0)
                  then loadResult app ev (Do_request app r)
                         (resultKey_of app (normalize app ev (Do_request app r) p0))
                         (p_Image (normalize app ev (Do_request app r) p0)) True
                  else None) = None
              \<and> \<not> holds (req_ctx (Do_request app r))
                     (''res:'' @ resultKey_of app (normalize app ev (Do_request app r) p0))
              \<longrightarrow> fst (Do app ev r p0) = (None, ctx_err (req_ctx r)))"
proof -
  let ?image = "(req_method r = ''GET'' \<or> req_method r = ''HEAD'')
              \<and> req_path r \<noteq> ''/'' \<and> req_path r \<noteq> []
              \<and> \<not> p_Params (Parse ev (req_path r))"
  have iff: "(case ServeHTTP app ev r of None \<Rightarrow> False | Some w \<Rightarrow> resp_status w = 499)
           = (?image \<and> is_err (snd (checkBlob ev (fst (Do app ev r (Parse ev (req_path r))))))
                   ContextCanceled)"
  proof (cases ?image)
    case True
    then show ?thesis using ServeHTTP_image_499[OF _ _ _ _ codes, of r app] by simp
  next
    case False
    from ServeHTTP_other_not_499[OF False, of app] obtain w where
      "ServeHTTP app ev r = Some w" "resp_status w \<noteq> 499" by (elim exE conjE)
    with False show ?thesis by auto
  qed
  have body: "(case ServeHTTP app ev r of None \<Rightarrow> False | Some w \<Rightarrow> resp_status w = 499)
              \<longrightarrow> (\<exists>w. ServeHTTP app ev r = Some w \<and> resp_body w = NoBody)"
  proof
    assume "case ServeHTTP app ev r of None \<Rightarrow> False | Some w \<Rightarrow> resp_status w = 499"
    with iff have i: ?image
      and c: "is_err (snd (checkBlob ev (fst (Do app ev r (Parse ev (req_path r)))))) ContextCanceled"
      by simp_all
    from i ServeHTTP_canceled_response[OF _ _ _ _ c]
    obtain w where "ServeHTTP app ev r = Some w" "resp_body w = NoBody" by auto
    then show "\<exists>w. ServeHTTP app ev r = Some w \<and> resp_body w = NoBody" by simp
  qed
  have dn: "ctx_err (req_ctx r) \<noteq> None \<and> select_done ev \<and> \<not> sign_mismatch app p0
              \<and> (if p_Meta (normalize app ev (Do_request app r) p0)
                  then loadResult app ev (Do_request app r)
                         (resultKey_of app (normalize app ev (Do_request app r) p0))
                         (p_Image (normalize app ev (Do_request app r) p0)) True
                  else None) = None
              \<and> \<not> holds (req_ctx (Do_request app r))
                     (''res:'' @ resultKey_of app (normalize app ev (Do_request app r) p0))
              \<longrightarrow> fst (Do app ev r p0) = (None, ctx_err (req_ctx r))"
  proof
    assume a: "ctx_err (req_ctx r) \<noteq> None \<and> select_done ev \<and> \<not> sign_mismatch app p0
              \<and> (if p_Meta (normalize app ev (Do_request app r) p0)
                  then loadResult app ev (Do_request app r)
                         (resultKey_of app (normalize app ev (Do_request app r) p0))
                         (p_Image (normalize app ev (Do_request app r) p0)) True
                  else None) = None
              \<and> \<not> holds (req_ctx (Do_request app r))
                     (''res:'' @ resultKey_of app (normalize app ev (Do_request app r) p0))"
    show "fst (Do app ev r p0) = (None, ctx_err (req_ctx r))"
      by (rule Do_done) (use a in simp_all)
  qed
  from iff have iff2:
    "(case ServeHTTP app ev r of None \<Rightarrow> False | Some w \<Rightarrow> resp_status w = 499)
           = ((req_method r = ''GET'' \<or> req_method r = ''HEAD'')
              \<and> req_path r \<noteq> ''/'' \<and> req_path r \<noteq> []
              \<and> \<not> p_Params (Parse ev (req_path r))
              \<and> is_err (snd (checkBlob ev (fst (Do app ev r (Parse ev (req_path r))))))
                   ContextCanceled)"
    by (simp only: conj_assoc)
  from iff2 body dn show ?thesis by (intro conjI)
qed

lemma spec_codes: "Code (WrapError_spec e) \<noteq> 499"
  by (simp add: WrapError_spec_def)

lemma Do_bare_canceled:
  "fst (Do app_bare env_plain req_canceled params_img) = (None, Some ContextCanceled)"
  by (simp add: cfg_defs run_defs req_canceled_def ctx_canceled_def)

lemma ServeHTTP_bare_canceled:
  "ServeHTTP app_bare env_plain req_canceled = Some (empty_response\<lparr>resp_status := 499\<rparr>)"
proof -
  have p: "Parse env_plain (req_path req_canceled) = params_img" by (simp add: env_plain_def)
  have cb: "checkBlob env_plain (fst (Do app_bare env_plain req_canceled
              (Parse env_plain (req_path req_canceled)))) = (None, Some ContextCanceled)"
    unfolding p Do_bare_canceled by (simp add: env_plain_def)
  show ?thesis
    by (subst ServeHTTP_image[OF _ _ _ _ cb])
       (simp_all add: req_canceled_def req_get_def env_plain_def params_img_def)
qed

lemma Do_signed_canceled:
  "fst (Do app_signed env_plain req_canceled params_img) = (None, Some ErrSignatureMismatch)"
  by (simp add: Do_def Let_def sign_mismatch_def app_signed_def app_bare_def params_img_def)

lemma ServeHTTP_signed_canceled:
  "ServeHTTP app_signed env_plain req_canceled
     = Some (writeJSON (empty_response\<lparr>resp_status := 403\<rparr>) req_canceled
               (JSONError \<lparr>Message = ''signature mismatch'', Code = 403\<rparr>))"
proof -
  have p: "Parse env_plain (req_path req_canceled) = params_img" by (simp add: env_plain_def)
  have cb: "checkBlob env_plain (fst (Do app_signed env_plain req_canceled
              (Parse env_plain (req_path req_canceled)))) = (None, Some ErrSignatureMismatch)"
    unfolding p Do_signed_canceled by (simp add: env_plain_def)
  have w: "WrapError env_plain = WrapError_spec" by (simp add: env_plain_def)
  have d: "\<not> DisableErrorBody app_signed" by (simp add: app_signed_def app_bare_def)
  show ?thesis
    by (subst ServeHTTP_image[OF _ _ _ _ cb])
       (simp_all add: req_canceled_def req_get_def env_plain_def params_img_def d WrapError_spec_def Let_def)
qed

lemma Do_loader_canceled:
  "fst (Do app_loader_canceled env_plain req_get params_img) = (None, Some ContextCanceled)"
  by (simp add: cfg_defs run_defs app_loader_canceled_def)

lemma ServeHTTP_loader_canceled:
  "ServeHTTP app_loader_canceled env_plain req_get = Some (empty_response\<lparr>resp_status := 499\<rparr>)"
proof -
  have p: "Parse env_plain (req_path req_get) = params_img" by (simp add: env_plain_def)
  have cb: "checkBlob env_plain (fst (Do app_loader_canceled env_plain req_get
              (Parse env_plain (req_path req_get)))) = (None, Some ContextCanceled)"
    unfolding p Do_loader_canceled by (simp add: env_plain_def)
  show ?thesis
    by (subst ServeHTTP_image[OF _ _ _ _ cb])
       (simp_all add: req_get_def env_plain_def params_img_def)
qed

text \<open>
  The theorem at a request whose context is canceled, on an engine in unsafe mode: \<open>Do\<close>
  returns the cancellation and the response is 499 with no body.
\<close>

theorem status_499_iff_canceled_error_witness:
  "ctx_err (req_ctx req_canceled) = Some ContextCanceled
   \<and> select_done env_plain
   \<and> \<not> sign_mismatch app_bare params_img
   \<and> fst (Do app_bare env_plain req_canceled params_img) = (None, Some ContextCanceled)
   \<and> is_err (snd (checkBlob env_plain (fst (Do app_bare env_plain req_canceled
        (Parse env_plain (req_path req_canceled)))))) ContextCanceled
   \<and> ServeHTTP app_bare env_plain req_canceled = Some (empty_response\<lparr>resp_status := 499\<rparr>)
   \<and> resp_body (empty_response\<lparr>resp_status := 499\<rparr>) = NoBody"
proof -
  have codes: "\<forall>e. Code (WrapError env_plain e) \<noteq> 499"
    by (simp add: env_plain_def spec_codes)
  note t = status_499_iff_canceled_error[OF codes, of app_bare req_canceled params_img]
  have a: "ctx_err (req_ctx req_canceled) = Some ContextCanceled"
    by (simp add: req_canceled_def ctx_canceled_def)
  have b: "select_done env_plain" by (simp add: env_plain_def)
  have c: "\<not> sign_mismatch app_bare params_img" by (simp add: sign_mismatch_def app_bare_def)
  have s: "(case ServeHTTP app_bare env_plain req_canceled of None \<Rightarrow> False
            | Some w \<Rightarrow> resp_status w = 499)"
    by (simp add: ServeHTTP_bare_canceled)
  from t[THEN conjunct1] s
  have d: "is_err (snd (checkBlob env_plain (fst (Do app_bare env_plain req_canceled
        (Parse env_plain (req_path req_canceled)))))) ContextCanceled"
    by simp
  have e: "resp_body (empty_response\<lparr>resp_status := 499\<rparr>) = NoBody"
    by (simp add: empty_response_def)
  from a b c Do_bare_canceled d ServeHTTP_bare_canceled e show ?thesis by (intro conjI)
qed

text \<open>
  Claim C9 as stated fails in both directions: a request whose context is canceled
  before it arrives, with a signature that does not match, is answered 403 with a JSON
  body; and a request whose context is live, with a loader that fails with a
  cancellation of its own, is answered 499.
\<close>

theorem status_499_counterexample:
  "ctx_err (req_ctx req_canceled) = Some ContextCanceled
   \<and> ServeHTTP app_signed env_plain req_canceled
       = Some (writeJSON (empty_response\<lparr>resp_status := 403\<rparr>) req_canceled
                 (JSONError \<lparr>Message = ''signature mismatch'', Code = 403\<rparr>))
   \<and> ctx_err (req_ctx req_get) = None
   \<and> ServeHTTP app_loader_canceled env_plain req_get
       = Some (empty_response\<lparr>resp_status := 499\<rparr>)"
proof -
  have a: "ctx_err (req_ctx req_canceled) = Some ContextCanceled"
    by (simp add: req_canceled_def ctx_canceled_def)
  have b: "ctx_err (req_ctx req_get) = None" by (simp add: req_get_def ctx_live_def)
  from a ServeHTTP_signed_canceled b ServeHTTP_loader_canceled show ?thesis by (intro conjI)
qed

text \<open>
  The leader of a call gets the result of \<open>fn\<close> on the context with the marker.
\<close>

lemma suppress_leads:
  assumes "leads ev ctx key"
  shows "fst (suppress ev ctx key st fn) = fst (fn (WithValue ctx key) st)"
  using assms by (auto simp: leads_def suppress_def Let_def split: prod.splits)

lemma loadStorage_leads_all_empty:
  assumes l2: "leads ev (req_ctx r) (''img:'' @ key)"
    and key: "key \<noteq> []"
    and empty: "\<forall>x \<in> set (outcomes app ev (WithContext r (WithValue (req_ctx r) (''img:'' @ key)))
                              (Storages app) (Loaders app) key). isBlobEmpty (fst x)"
  shows "\<exists>isSave evs. loadStorage app ev r key =
           (None, isSave,
            (if last_error (outcomes app ev (WithContext r (WithValue (req_ctx r) (''img:'' @ key)))
                              (Storages app) (Loaders app) key) = None
             then Some ErrNotFound
             else last_error (outcomes app ev (WithContext r (WithValue (req_ctx r) (''img:'' @ key)))
                              (Storages app) (Loaders app) key)),
            evs)"
proof -
  let ?c = "WithValue (req_ctx r) (''img:'' @ key)"
  let ?S = "suppress ev (req_ctx r) (''img:'' @ key) False (loadStorage_fn app ev r key)"
  have fl: "fetch_load app ev r key ?c =
      (None, None,
       if last_error (outcomes app ev (WithContext r ?c) (Storages app) (Loaders app) key) = None
       then Some ErrNotFound
       else last_error (outcomes app ev (WithContext r ?c) (Storages app) (Loaders app) key))"
    unfolding fetch_load_def by (rule load_all_empty_last_error_wins[OF key empty])
  have g: "fst (loadStorage_fn app ev r key ?c False) =
      (None,
       if last_error (outcomes app ev (WithContext r ?c) (Storages app) (Loaders app) key) = None
       then Some ErrNotFound
       else last_error (outcomes app ev (WithContext r ?c) (Storages app) (Loaders app) key))"
    unfolding loadStorage_fn_eq fl by (simp only: fst_conv snd_conv)
  have "fst ?S = fst (loadStorage_fn app ev r key ?c False)"
    by (rule suppress_leads[OF l2])
  then have f: "fst ?S =
      (None,
       if last_error (outcomes app ev (WithContext r ?c) (Storages app) (Loaders app) key) = None
       then Some ErrNotFound
       else last_error (outcomes app ev (WithContext r ?c) (Storages app) (Loaders app) key))"
    by (simp only: g)
  have ls: "loadStorage app ev r key = (fst (fst ?S), snd (snd ?S), snd (fst ?S), fst (snd ?S))"
    by (cases ?S) (auto simp: loadStorage_def)
  show ?thesis
    apply (rule exI[of _ "snd (snd ?S)"])
    apply (rule exI[of _ "fst (snd ?S)"])
    apply (subst ls)
    apply (simp only: f fst_conv snd_conv)
    done
qed

lemma Do_fn_source_error:
  assumes probe: "(if \<not> p_Meta p then loadResult app ev r resultKey (p_Image p) False else None) = None"
    and sema: "(if ProcessConcurrency app > 0 then acquire ev ctx else None) = None"
    and ls: "loadStorage app ev r (p_Image p) = (None, isSave, Some e, evs)"
  shows "fst (Do_fn app ev r p resultKey ctx ()) = (None, Some e)"
  unfolding Do_fn_def probe sema ls by simp

lemma Do_leads_source_error:
  assumes sig: "\<not> sign_mismatch app p0"
    and p: "p = normalize app ev (Do_request app r) p0"
    and probe: "loadResult app ev (Do_request app r) (resultKey_of app p) (p_Image p) (p_Meta p) = None"
    and l1: "leads ev (req_ctx (Do_request app r)) (''res:'' @ resultKey_of app p)"
    and sema: "(if ProcessConcurrency app > 0
                then acquire ev (WithValue (req_ctx (Do_request app r)) (''res:'' @ resultKey_of app p))
                else None) = None"
    and ls: "loadStorage app ev (Do_request app r) (p_Image p) = (None, isSave, Some e, evs)"
  shows "fst (Do app ev r p0) = (None, Some e)"
proof -
  from probe have pm: "(if p_Meta p then loadResult app ev (Do_request app r) (resultKey_of app p)
                          (p_Image p) True else None) = None"
    by (cases "p_Meta p") simp_all
  from probe have pb: "(if \<not> p_Meta p then loadResult app ev (Do_request app r) (resultKey_of app p)
                          (p_Image p) False else None) = None"
    by (cases "p_Meta p") simp_all
  have "fst (Do app ev r p0) =
          fst (suppress ev (req_ctx (Do_request app r)) (''res:'' @ resultKey_of app p) ()
                 (Do_fn app ev (Do_request app r) p (resultKey_of app p)))"
    unfolding Do_unfold p using sig pm[unfolded p] by simp
  also have "\<dots> = fst (Do_fn app ev (Do_request app r) p (resultKey_of app p)
                       (WithValue (req_ctx (Do_request app r)) (''res:'' @ resultKey_of app p)) ())"
    by (rule suppress_leads[OF l1])
  also have "\<dots> = (None, Some e)"
    by (rule Do_fn_source_error[OF pb sema ls])
  finally show ?thesis .
qed


text \<open>
  Claim C6, as the code has it, with \<open>WrapError\<close> the function of the spec. Take a \<open>GET\<close>
  or \<open>HEAD\<close> of an image path whose signature matches and whose result cache probe
  misses, that leads both of its singleflight calls and gets a permit, and whose
  storages and loaders all return an empty blob for the image key. Then \<open>Do\<close> returns no
  blob and the error of the last handler consulted, whether or not that error is
  \<open>ErrPass\<close> (\<open>ErrNotFound\<close> when the last handler returned none, or when there is no
  handler); unless that error is a cancellation, the response carries the status and,
  unless error bodies are disabled, the JSON of the error \<open>WrapError\<close> makes of it. An
  \<open>ErrPass\<close> is rendered as \<open>ErrNotFound\<close>, 404 "not found": it never shows.
\<close>

theorem ServeHTTP_load_failure_rendered:
  assumes wrap: "WrapError ev = WrapError_spec"
    and m: "req_method r = ''GET'' \<or> req_method r = ''HEAD''"
    and path: "req_path r \<noteq> ''/''" "req_path r \<noteq> []"
    and np: "\<not> p_Params (Parse ev (req_path r))"
    and sig: "\<not> sign_mismatch app (Parse ev (req_path r))"
    and p: "p = normalize app ev (Do_request app r) (Parse ev (req_path r))"
    and probe: "loadResult app ev (Do_request app r) (resultKey_of app p) (p_Image p) (p_Meta p) = None"
    and l1: "leads ev (req_ctx (Do_request app r)) (''res:'' @ resultKey_of app p)"
    and sema: "(if ProcessConcurrency app > 0
                then acquire ev (WithValue (req_ctx (Do_request app r)) (''res:'' @ resultKey_of app p))
                else None) = None"
    and l2: "leads ev (req_ctx (Do_request app r)) (''img:'' @ p_Image p)"
    and key: "p_Image p \<noteq> []"
    and outs: "outs = outcomes app ev
                 (WithContext (Do_request app r)
                    (WithValue (req_ctx (Do_request app r)) (''img:'' @ p_Image p)))
                 (Storages app) (Loaders app) (p_Image p)"
    and empty: "\<forall>x \<in> set outs. isBlobEmpty (fst x)"
    and e: "e = (case last_error outs of None \<Rightarrow> ErrNotFound | Some e' \<Rightarrow> e')"
    and cb: "checkBlob ev (None, Some e) = (None, Some e)"
    and nc: "\<not> errors_Is e ContextCanceled"
  shows "fst (Do app ev r (Parse ev (req_path r))) = (None, Some e)
         \<and> ServeHTTP app ev r =
             Some (if DisableErrorBody app
                   then empty_response\<lparr>resp_status := Code (WrapError_spec e)\<rparr>
                   else writeJSON (empty_response\<lparr>resp_status := Code (WrapError_spec e)\<rparr>) r
                          (JSONError (WrapError_spec e)))
         \<and> (e = ErrPass \<longrightarrow>
               WrapError_spec e = WrapError_spec ErrNotFound
               \<and> WrapError_spec e = \<lparr>Message = ''not found'', Code = 404\<rparr>)"
proof -
  from loadStorage_leads_all_empty[OF l2 key empty[unfolded outs]]
  obtain isSave evs where ls: "loadStorage app ev (Do_request app r) (p_Image p) =
      (None, isSave, (if last_error outs = None then Some ErrNotFound else last_error outs), evs)"
    unfolding outs by (elim exE)
  have le: "(if last_error outs = None then Some ErrNotFound else last_error outs) = Some e"
    unfolding e by (cases "last_error outs") simp_all
  from ls le have ls': "loadStorage app ev (Do_request app r) (p_Image p) = (None, isSave, Some e, evs)"
    by simp
  have D: "fst (Do app ev r (Parse ev (req_path r))) = (None, Some e)"
    by (rule Do_leads_source_error[OF sig p probe l1 sema ls'])
  have cb': "checkBlob ev (fst (Do app ev r (Parse ev (req_path r)))) = (None, Some e)"
    unfolding D by (rule cb)
  have S: "ServeHTTP app ev r =
             Some (if DisableErrorBody app
                   then empty_response\<lparr>resp_status := Code (WrapError_spec e)\<rparr>
                   else writeJSON (empty_response\<lparr>resp_status := Code (WrapError_spec e)\<rparr>) r
                          (JSONError (WrapError_spec e)))"
    unfolding ServeHTTP_image[OF m path np cb'] using nc by (simp add: wrap Let_def)
  have W: "e = ErrPass \<longrightarrow>
               WrapError_spec e = WrapError_spec ErrNotFound
               \<and> WrapError_spec e = \<lparr>Message = ''not found'', Code = 404\<rparr>"
    by (simp add: WrapError_spec_def)
  from D S W show ?thesis by (intro conjI)
qed

lemma ServeHTTP_timeout_pass:
  "ServeHTTP app_timeout_pass env_plain req_get
     = Some (writeJSON (empty_response\<lparr>resp_status := 404\<rparr>) req_get
               (JSONError \<lparr>Message = ''not found'', Code = 404\<rparr>))"
proof -
  have p: "Parse env_plain (req_path req_get) = params_img" by (simp add: env_plain_def)
  have cb: "checkBlob env_plain (fst (Do app_timeout_pass env_plain req_get
              (Parse env_plain (req_path req_get)))) = (None, Some ErrPass)"
    unfolding p Do_timeout_pass by (simp add: env_plain_def)
  have d: "\<not> DisableErrorBody app_timeout_pass" by (simp add: app_timeout_pass_def app_bare_def)
  show ?thesis
    by (subst ServeHTTP_image[OF _ _ _ _ cb])
       (simp_all add: req_get_def env_plain_def params_img_def d WrapError_spec_def Let_def)
qed

text \<open>
  Claim C6 as stated fails: the first loader fails with \<open>ErrTimeout\<close> and the second
  passes. The last non-pass error is \<open>ErrTimeout\<close>, which would be rendered 408; \<open>load\<close>
  and \<open>Do\<close> return \<open>ErrPass\<close>, the error of the last loader, and the response is 404
  "not found".
\<close>

theorem last_non_pass_error_rendered_counterexample:
  "outcomes app_bare env_plain req_get []
     [loader_const (None, Some ErrTimeout), loader_const (None, Some ErrPass)] ''img''
     = [(None, Some ErrTimeout), (None, Some ErrPass)]
   \<and> load app_bare env_plain req_get []
        [loader_const (None, Some ErrTimeout), loader_const (None, Some ErrPass)] ''img'' False
       = (None, None, Some ErrPass)
   \<and> fst (Do app_timeout_pass env_plain req_get params_img) = (None, Some ErrPass)
   \<and> ServeHTTP app_timeout_pass env_plain req_get
       = Some (writeJSON (empty_response\<lparr>resp_status := 404\<rparr>) req_get
                 (JSONError \<lparr>Message = ''not found'', Code = 404\<rparr>))
   \<and> WrapError_spec ErrTimeout = \<lparr>Message = ''timeout'', Code = 408\<rparr>"
proof -
  have w: "WrapError_spec ErrTimeout = \<lparr>Message = ''timeout'', Code = 408\<rparr>"
    by (simp add: WrapError_spec_def)
  from outcomes_timeout_pass load_timeout_pass Do_timeout_pass ServeHTTP_timeout_pass w
  show ?thesis by (intro conjI)
qed


lemmas surface_defs = app_timeout_pass_def app_bare_def env_plain_def req_get_def params_img_def
  ctx_live_def loader_const_def Do_request_def normalize_def resultKey_of_def TrimPrefix_def
  loadResult_def load_def leads_def holds_def outcomes_def load_request_def WithContext_def
  WithValue_def isBlobEmpty_def last_error_def sign_mismatch_def Let_def

text \<open>
  The theorem at two loaders: when the first times out and the second passes the
  response is 404 "not found"; when the first passes and the second times out it is 408
  "timeout".
\<close>

theorem ServeHTTP_load_failure_rendered_witness:
  "WrapError env_plain = WrapError_spec
   \<and> leads env_plain (req_ctx (Do_request app_timeout_pass req_get)) ''res:img''
   \<and> leads env_plain (req_ctx (Do_request app_timeout_pass req_get)) ''img:img''
   \<and> outcomes app_timeout_pass env_plain
        (WithContext (Do_request app_timeout_pass req_get)
           (WithValue (req_ctx (Do_request app_timeout_pass req_get)) ''img:img''))
        (Storages app_timeout_pass) (Loaders app_timeout_pass) ''img''
       = [(None, Some ErrTimeout), (None, Some ErrPass)]
   \<and> isBlobEmpty None
   \<and> fst (Do app_timeout_pass env_plain req_get (Parse env_plain (req_path req_get)))
       = (None, Some ErrPass)
   \<and> ServeHTTP app_timeout_pass env_plain req_get
       = Some (writeJSON (empty_response\<lparr>resp_status := 404\<rparr>) req_get
                 (JSONError \<lparr>Message = ''not found'', Code = 404\<rparr>))
   \<and> ServeHTTP (app_bare\<lparr>Loaders := [loader_const (None, Some ErrPass),
                                       loader_const (None, Some ErrTimeout)]\<rparr>) env_plain req_get
       = Some (writeJSON (empty_response\<lparr>resp_status := 408\<rparr>) req_get
                 (JSONError \<lparr>Message = ''timeout'', Code = 408\<rparr>))"
proof -
  let ?B = "app_bare\<lparr>Loaders := [loader_const (None, Some ErrPass),
                                   loader_const (None, Some ErrTimeout)]\<rparr>"
  have a: "WrapError env_plain = WrapError_spec" by (simp add: env_plain_def)
  have b: "leads env_plain (req_ctx (Do_request app_timeout_pass req_get)) ''res:img''"
    by (simp add: surface_defs)
  have c: "leads env_plain (req_ctx (Do_request app_timeout_pass req_get)) ''img:img''"
    by (simp add: surface_defs)
  have d: "outcomes app_timeout_pass env_plain
        (WithContext (Do_request app_timeout_pass req_get)
           (WithValue (req_ctx (Do_request app_timeout_pass req_get)) ''img:img''))
        (Storages app_timeout_pass) (Loaders app_timeout_pass) ''img''
       = [(None, Some ErrTimeout), (None, Some ErrPass)]"
    by (simp add: surface_defs)
  have n: "isBlobEmpty None" by (simp add: isBlobEmpty_def)
  have t1: "fst (Do app_timeout_pass env_plain req_get (Parse env_plain (req_path req_get)))
              = (None, Some ErrPass)
         \<and> ServeHTTP app_timeout_pass env_plain req_get =
             Some (if DisableErrorBody app_timeout_pass
                   then empty_response\<lparr>resp_status := Code (WrapError_spec ErrPass)\<rparr>
                   else writeJSON (empty_response\<lparr>resp_status := Code (WrapError_spec ErrPass)\<rparr>)
                          req_get (JSONError (WrapError_spec ErrPass)))
         \<and> (ErrPass = ErrPass \<longrightarrow>
               WrapError_spec ErrPass = WrapError_spec ErrNotFound
               \<and> WrapError_spec ErrPass = \<lparr>Message = ''not found'', Code = 404\<rparr>)"
    by (rule ServeHTTP_load_failure_rendered[where p=params_img
          and outs="[(None, Some ErrTimeout), (None, Some ErrPass)]"])
       (simp_all add: surface_defs)
  have t2: "fst (Do ?B env_plain req_get (Parse env_plain (req_path req_get)))
              = (None, Some ErrTimeout)
         \<and> ServeHTTP ?B env_plain req_get =
             Some (if DisableErrorBody ?B
                   then empty_response\<lparr>resp_status := Code (WrapError_spec ErrTimeout)\<rparr>
                   else writeJSON (empty_response\<lparr>resp_status := Code (WrapError_spec ErrTimeout)\<rparr>)
                          req_get (JSONError (WrapError_spec ErrTimeout)))
         \<and> (ErrTimeout = ErrPass \<longrightarrow>
               WrapError_spec ErrTimeout = WrapError_spec ErrNotFound
               \<and> WrapError_spec ErrTimeout = \<lparr>Message = ''not found'', Code = 404\<rparr>)"
    by (rule ServeHTTP_load_failure_rendered[where p=params_img
          and outs="[(None, Some ErrPass), (None, Some ErrTimeout)]"])
       (simp_all add: surface_defs)
  from t1 have e: "fst (Do app_timeout_pass env_plain req_get (Parse env_plain (req_path req_get)))
       = (None, Some ErrPass)" by (rule conjunct1)
  from t1 have f: "ServeHTTP app_timeout_pass env_plain req_get
       = Some (writeJSON (empty_response\<lparr>resp_status := 404\<rparr>) req_get
                 (JSONError \<lparr>Message = ''not found'', Code = 404\<rparr>))"
    by (simp add: app_timeout_pass_def app_bare_def WrapError_spec_def)
  from t2 have g: "ServeHTTP ?B env_plain req_get
       = Some (writeJSON (empty_response\<lparr>resp_status := 408\<rparr>) req_get
                 (JSONError \<lparr>Message = ''timeout'', Code = 408\<rparr>))"
    by (simp add: app_bare_def WrapError_spec_def)
  from a b c d n e f g show ?thesis by (intro conjI)
qed

end
